theory Spec2Isabelle
  imports Complex_Main "HOL-Library.Word"
begin

section \<open>JavaScript strings and values\<close>

text \<open>
  A JavaScript string is a sequence of UTF-16 code units; \<open>s.length\<close> counts code units,
  which is \<open>length\<close> on the list. String literals of the source are ASCII and are written
  through \<open>js\<close>.
\<close>

type_synonym jsstring = "16 word list"

definition js :: "string \<Rightarrow> jsstring" where
  "js s = map (\<lambda>c. word_of_nat (of_char c)) s"

text \<open>
  The code units matched by \<open>\s\<close> in a regular expression without the unicode flag, which
  are also the ones \<open>String.prototype.trim\<close> strips (WhiteSpace and LineTerminator of
  ECMAScript): TAB, LF, VT, FF, CR, SP, NBSP, U+1680, U+2000..U+200A, LS, PS, U+202F,
  U+205F, U+3000 and U+FEFF.
\<close>

definition is_ws :: "16 word \<Rightarrow> bool" where
  "is_ws c \<longleftrightarrow>
     c = 0x9 \<or> c = 0xA \<or> c = 0xB \<or> c = 0xC \<or> c = 0xD \<or> c = 0x20 \<or> c = 0xA0 \<or>
     c = 0x1680 \<or> (0x2000 \<le> c \<and> c \<le> 0x200A) \<or> c = 0x2028 \<or> c = 0x2029 \<or>
     c = 0x202F \<or> c = 0x205F \<or> c = 0x3000 \<or> c = 0xFEFF"

text \<open>
  The values \<open>body?.text\<close> can take that the model covers: a missing field (or a body that
  is not an object) gives \<open>undefined\<close>; JSON \<open>null\<close>, booleans and strings are themselves.
  Numbers, arrays and objects in the \<open>text\<close> field are outside the model.
\<close>

datatype jsval = Undefined | Null | Bool bool | Str jsstring

fun truthy :: "jsval \<Rightarrow> bool" where
  "truthy Undefined = False"
| "truthy Null = False"
| "truthy (Bool b) = b"
| "truthy (Str s) = (s \<noteq> [])"

fun js_String :: "jsval \<Rightarrow> jsstring" where
  "js_String Undefined = js ''undefined''"
| "js_String Null = js ''null''"
| "js_String (Bool b) = (if b then js ''true'' else js ''false'')"
| "js_String (Str s) = s"

text \<open>\<open>s.trim()\<close>: whitespace is removed from both ends.\<close>

definition js_trim :: "jsstring \<Rightarrow> jsstring" where
  "js_trim s = rev (dropWhile is_ws (rev (dropWhile is_ws s)))"

text \<open>
  \<open>s.replace(/\s+/g, " ")\<close>: the string is scanned from the left; where a whitespace code
  unit is found, the longest run starting there is replaced by one space and the scan
  goes on behind the run; any other code unit is copied.
\<close>

function js_replace_ws :: "jsstring \<Rightarrow> jsstring" where
  "js_replace_ws [] = []"
| "js_replace_ws (c # cs) =
     (if is_ws c then 0x20 # js_replace_ws (dropWhile is_ws cs)
      else c # js_replace_ws cs)"
  by pat_completeness auto
termination
  by (relation "measure length") (auto simp: length_dropWhile_le less_Suc_eq_le)

section \<open>Normalisation of the submitted text\<close>

text \<open>
  \<^verbatim>\<open>
  function normalizeText(s) {
    return String(s || "").trim().replace(/\s+/g, " ");
  }
  \<close>
\<close>

definition normalizeText :: "jsval \<Rightarrow> jsstring" where
  "normalizeText s = js_replace_ws (js_trim (js_String (if truthy s then s else Str [])))"

subsection \<open>The reference definition of the specification (Contract A)\<close>

text \<open>
  Written from the words of the contract, independently of the code: a missing input is
  the empty string; leading whitespace is dropped, trailing whitespace is dropped; of
  two adjacent whitespace characters the first disappears, and a whitespace character that
  remains is an ASCII space.
\<close>

definition spec_coerce :: "jsstring option \<Rightarrow> jsstring" where
  "spec_coerce raw = (case raw of None \<Rightarrow> [] | Some s \<Rightarrow> s)"

fun spec_trim_leading :: "jsstring \<Rightarrow> jsstring" where
  "spec_trim_leading [] = []"
| "spec_trim_leading (c # cs) = (if is_ws c then spec_trim_leading cs else c # cs)"

fun spec_trim_trailing :: "jsstring \<Rightarrow> jsstring" where
  "spec_trim_trailing [] = []"
| "spec_trim_trailing (c # cs) =
     (if is_ws c \<and> spec_trim_trailing cs = [] then [] else c # spec_trim_trailing cs)"

fun spec_collapse :: "jsstring \<Rightarrow> jsstring" where
  "spec_collapse [] = []"
| "spec_collapse [c] = [if is_ws c then 0x20 else c]"
| "spec_collapse (c # d # cs) =
     (if is_ws c \<and> is_ws d then spec_collapse (d # cs)
      else (if is_ws c then 0x20 else c) # spec_collapse (d # cs))"

definition spec_normalize :: "jsstring option \<Rightarrow> jsstring" where
  "spec_normalize raw = spec_collapse (spec_trim_trailing (spec_trim_leading (spec_coerce raw)))"

section \<open>Requests, responses and the store\<close>

text \<open>
  \<open>request.method\<close>; every method other than the three the handler names is
  \<open>OtherMethod\<close>.
\<close>

datatype http_method = OPTIONS | GET | POST | OtherMethod

text \<open>
  What the handler reads of a request: the method, \<open>request.headers.get(name)\<close> (\<open>None\<close>
  is \<open>null\<close>), and the outcome of \<open>await request.json()\<close>: \<open>None\<close> when it rejects
  (the body is not JSON), \<open>Some v\<close> when it resolves with a body for which \<open>body?.text\<close>
  evaluates to \<open>v\<close>.
\<close>

record request =
  req_method :: http_method
  req_headers :: "string \<rightharpoonup> jsstring"
  req_json :: "jsval option"

text \<open>
  Modelled from the spec: the table declarations are not among the sources. The
  specification gives \<open>messages(id PK autoincrement, text, created_at)\<close> and
  \<open>rate_limits(ip_hash PK, last_ts)\<close>, timestamps being integers (milliseconds since the
  epoch). The messages table is the list of its rows in insertion order; the rate-limit
  table, keyed by its primary key, is a map. Numbers are JavaScript numbers holding
  integers far below \<open>2^53\<close>, where subtraction and comparison are exact: they are \<open>int\<close>.
\<close>

record message =
  msg_id :: int
  msg_text :: jsstring
  created_at :: int

record db =
  messages :: "message list"
  rate_limits :: "jsstring \<rightharpoonup> int"

text \<open>\<open>env.DB\<close> is \<open>None\<close> when the binding is undefined.\<close>

record env =
  DB :: "db option"
  RATE_LIMIT_SALT :: "jsstring option"

text \<open>The four prepared statements of the handler.\<close>

datatype db_op = SelectMessages | SelectRateLimit | UpsertRateLimit | InsertMessage

text \<open>
  What the runtime decides during one invocation: the bytes of
  \<open>crypto.subtle.digest("SHA-256", new TextEncoder().encode(input))\<close>, the value of
  \<open>Date.now()\<close> (read once per request), and for each statement whether the storage
  call throws (\<open>Some detail\<close>, the text of \<open>String(e?.message || e)\<close>) or completes.
\<close>

record platform =
  digest :: "jsstring \<Rightarrow> 8 word list"
  date_now :: int
  db_throws :: "db_op \<Rightarrow> jsstring option"

text \<open>
  The JSON envelopes the handler sends, by shape: no body (preflight), \<open>{ok: true}\<close>,
  \<open>{ok: true, data}\<close>, \<open>{ok: false, error}\<close>, \<open>{ok: false, error, detail}\<close> and
  \<open>{ok: false, error: "Too many requests", retry_after_ms}\<close>.
\<close>

datatype body =
    NoBody
  | OkTrue
  | OkData "message list"
  | Err string
  | ErrDetail string jsstring
  | TooManyRequests int

record response =
  status :: nat
  body :: body
  resp_headers :: "string \<rightharpoonup> jsstring"

section \<open>Helpers of the handler\<close>

text \<open>
  \<^verbatim>\<open>
  function json(data, status = 200, extraHeaders = {}) {
    return new Response(JSON.stringify(data), {
      status,
      headers: { "Content-Type": "application/json; charset=utf-8", ...extraHeaders },
    });
  }
  \<close>
\<close>

definition json :: "body \<Rightarrow> nat \<Rightarrow> (string \<rightharpoonup> jsstring) \<Rightarrow> response" where
  "json data st extraHeaders =
     \<lparr>status = st, body = data,
      resp_headers = [''Content-Type'' \<mapsto> js ''application/json; charset=utf-8''] ++ extraHeaders\<rparr>"

definition ALLOWED_ORIGINS :: "jsstring list" where
  "ALLOWED_ORIGINS = [js ''https://duanlian.xyz'', js ''https://www.duanlian.xyz'']"

definition getCorsHeaders :: "request \<Rightarrow> (string \<rightharpoonup> jsstring)" where
  "getCorsHeaders request =
     (case req_headers request ''Origin'' of
        None \<Rightarrow> Map.empty
      | Some origin \<Rightarrow>
          if origin \<noteq> [] \<and> origin \<in> set ALLOWED_ORIGINS
          then [''Access-Control-Allow-Origin'' \<mapsto> origin,
                ''Access-Control-Allow-Methods'' \<mapsto> js ''GET,POST,OPTIONS'',
                ''Access-Control-Allow-Headers'' \<mapsto> js ''Content-Type'',
                ''Vary'' \<mapsto> js ''Origin'']
          else Map.empty)"

text \<open>
  \<^verbatim>\<open>
  function getClientIp(request) {
    const cfip = request.headers.get("cf-connecting-ip");
    if (cfip) return cfip;
    const xff = request.headers.get("x-forwarded-for");
    if (xff) return xff.split(",")[0].trim();
    return "unknown";
  }
  \<close>
  A header value is truthy when it is present and not empty.
\<close>

definition getClientIp :: "request \<Rightarrow> jsstring" where
  "getClientIp request =
     (let from_xff =
            (case req_headers request ''x-forwarded-for'' of
               None \<Rightarrow> js ''unknown''
             | Some xff \<Rightarrow>
                 if xff \<noteq> [] then js_trim (takeWhile (\<lambda>c. c \<noteq> 0x2C) xff)
                 else js ''unknown'')
      in case req_headers request ''cf-connecting-ip'' of
           None \<Rightarrow> from_xff
         | Some cfip \<Rightarrow> if cfip \<noteq> [] then cfip else from_xff)"

text \<open>
  \<open>b.toString(16).padStart(2, "0")\<close> for a byte: two lower-case hexadecimal digits.
\<close>

definition hex_digit :: "nat \<Rightarrow> 16 word" where
  "hex_digit n = (if n < 10 then word_of_nat (48 + n) else word_of_nat (87 + n))"

definition byte_hex :: "8 word \<Rightarrow> jsstring" where
  "byte_hex b = [hex_digit (unat b div 16), hex_digit (unat b mod 16)]"

definition sha256Hex :: "platform \<Rightarrow> jsstring \<Rightarrow> jsstring" where
  "sha256Hex P input = concat (map byte_hex (digest P input))"

text \<open>
  \<open>String(n)\<close> for an integer \<open>n\<close> (below \<open>10^21\<close> in absolute value, where JavaScript
  prints every digit): the decimal digits, after a minus sign when negative.
\<close>

function digits10 :: "nat \<Rightarrow> jsstring" where
  "digits10 n =
     (if n < 10 then [word_of_nat (48 + n)]
      else digits10 (n div 10) @ [word_of_nat (48 + n mod 10)])"
  by pat_completeness auto
termination
  by (relation "measure id") auto

declare digits10.simps [simp del]

definition js_String_num :: "int \<Rightarrow> jsstring" where
  "js_String_num n = (if n < 0 then 0x2D # digits10 (nat (- n)) else digits10 (nat n))"

text \<open>
  \<open>Math.ceil(ms / 1000)\<close>: the division is a division of reals (of doubles, exact enough
  on the integers the handler meets to leave the ceiling unchanged).
\<close>

definition Math_ceil_div1000 :: "int \<Rightarrow> int" where
  "Math_ceil_div1000 ms = \<lceil>real_of_int ms / 1000\<rceil>"

section \<open>The storage statements\<close>

text \<open>
  \<open>SELECT id, text, created_at FROM messages ORDER BY created_at DESC LIMIT 10\<close>: the
  rows ordered by \<open>created_at\<close>, newest first, cut after ten. SQL leaves the order of rows
  with equal \<open>created_at\<close> to the engine; here they keep their insertion order.
\<close>

definition select_latest :: "message list \<Rightarrow> message list" where
  "select_latest ms = take 10 (sort_key (\<lambda>m. - created_at m) ms)"

text \<open>
  Modelled from the spec: the schema is not among the sources; the specification has
  \<open>id\<close> auto-assigned, unique and increasing by insertion.
\<close>

definition next_id :: "message list \<Rightarrow> int" where
  "next_id ms = fold max (map msg_id ms) 0 + 1"

text \<open>\<open>INSERT INTO messages (text, created_at) VALUES (?, ?)\<close>\<close>

definition insert_message :: "jsstring \<Rightarrow> int \<Rightarrow> db \<Rightarrow> db" where
  "insert_message txt ts d =
     d\<lparr>messages := messages d @ [\<lparr>msg_id = next_id (messages d), msg_text = txt, created_at = ts\<rparr>]\<rparr>"

text \<open>
  \<open>INSERT INTO rate_limits (ip_hash, last_ts) VALUES (?, ?)
    ON CONFLICT(ip_hash) DO UPDATE SET last_ts=excluded.last_ts\<close>
\<close>

definition upsert_rate_limit :: "jsstring \<Rightarrow> int \<Rightarrow> db \<Rightarrow> db" where
  "upsert_rate_limit ipHash ts d = d\<lparr>rate_limits := (rate_limits d)(ipHash \<mapsto> ts)\<rparr>"

section \<open>The handler with the rate limiter\<close>

definition WINDOW_MS :: int where
  "WINDOW_MS = 30000"

text \<open>
  The client key of a request:
  \<^verbatim>\<open>
  const ip = getClientIp(request);
  const salt = env.RATE_LIMIT_SALT || "PLEASE_SET_RATE_LIMIT_SALT";
  const ipHash = await sha256Hex(`${ip}|${salt}`);
  \<close>
\<close>

definition clientKey :: "platform \<Rightarrow> env \<Rightarrow> request \<Rightarrow> jsstring" where
  "clientKey P e request =
     (let ip = getClientIp request;
          salt = (case RATE_LIMIT_SALT e of
                    None \<Rightarrow> js ''PLEASE_SET_RATE_LIMIT_SALT''
                  | Some s \<Rightarrow> if s \<noteq> [] then s else js ''PLEASE_SET_RATE_LIMIT_SALT'')
      in sha256Hex P (ip @ js ''|'' @ salt))"

text \<open>The answer of the \<open>catch\<close> around the whole POST branch.\<close>

definition server_error_post :: "(string \<rightharpoonup> jsstring) \<Rightarrow> jsstring \<Rightarrow> response" where
  "server_error_post corsHeaders detail =
     json (ErrDetail ''Server error on POST'' detail) 500 corsHeaders"

text \<open>
  The throttled answer:
  \<^verbatim>\<open>
  const retryAfterMs = WINDOW_MS - (now - rlRow.last_ts);
  const retryAfterSec = Math.ceil(retryAfterMs / 1000);
  return json({ ok: false, error: "Too many requests", retry_after_ms: retryAfterMs },
              429, { ...corsHeaders, "Retry-After": String(retryAfterSec) });
  \<close>
\<close>

definition too_many_requests :: "(string \<rightharpoonup> jsstring) \<Rightarrow> int \<Rightarrow> int \<Rightarrow> response" where
  "too_many_requests corsHeaders now last_ts =
     (let retryAfterMs = WINDOW_MS - (now - last_ts);
          retryAfterSec = Math_ceil_div1000 retryAfterMs
      in json (TooManyRequests retryAfterMs) 429
              (corsHeaders(''Retry-After'' \<mapsto> js_String_num retryAfterSec)))"

text \<open>
  The POST branch behind the rate-limit check: the upsert of the timestamp, then the
  parsing of the body, the validation and the insertion. A statement that throws leaves
  the store as the statements before it made it.
\<close>

definition post_after_check :: "platform \<Rightarrow> env \<Rightarrow> db \<Rightarrow> request \<Rightarrow> response \<times> env" where
  "post_after_check P e d request =
     (let corsHeaders = getCorsHeaders request;
          ipHash = clientKey P e request;
          now = date_now P
      in case db_throws P UpsertRateLimit of
           Some detail \<Rightarrow> (server_error_post corsHeaders detail, e)
         | None \<Rightarrow>
             let d1 = upsert_rate_limit ipHash now d;
                 e1 = e\<lparr>DB := Some d1\<rparr>
             in case req_json request of
                  None \<Rightarrow> (json (Err ''Invalid JSON'') 400 corsHeaders, e1)
                | Some t \<Rightarrow>
                    let text = normalizeText t
                    in if text = [] \<or> length text < 1 \<or> length text > 50
                       then (json (Err ''Text must be 1-50 chars'') 400 corsHeaders, e1)
                       else case db_throws P InsertMessage of
                              Some detail \<Rightarrow> (server_error_post corsHeaders detail, e1)
                            | None \<Rightarrow>
                                (json OkTrue 200 corsHeaders,
                                 e\<lparr>DB := Some (insert_message text now d1)\<rparr>))"

text \<open>
  The POST branch: the stored row of the client key is read;
  \<open>rlRow?.last_ts && now - rlRow.last_ts < WINDOW_MS\<close> holds when the row is there, its
  \<open>last_ts\<close> is truthy (a number other than 0) and the window has not passed.
\<close>

definition post_branch :: "platform \<Rightarrow> env \<Rightarrow> db \<Rightarrow> request \<Rightarrow> response \<times> env" where
  "post_branch P e d request =
     (let corsHeaders = getCorsHeaders request;
          ipHash = clientKey P e request;
          now = date_now P
      in case db_throws P SelectRateLimit of
           Some detail \<Rightarrow> (server_error_post corsHeaders detail, e)
         | None \<Rightarrow>
             (case rate_limits d ipHash of
                None \<Rightarrow> post_after_check P e d request
              | Some last_ts \<Rightarrow>
                  if last_ts \<noteq> 0 \<and> now - last_ts < WINDOW_MS
                  then (too_many_requests corsHeaders now last_ts, e)
                  else post_after_check P e d request))"

text \<open>
  \<open>onRequest\<close> of the variant with the rate limiter: preflight, the check of the
  binding, GET, POST, and 405 for any other method. The result is the response and the
  environment with the store as the request left it.
\<close>

definition onRequest :: "platform \<Rightarrow> env \<Rightarrow> request \<Rightarrow> response \<times> env" where
  "onRequest P e request =
     (let corsHeaders = getCorsHeaders request
      in if req_method request = OPTIONS
         then (\<lparr>status = 200, body = NoBody, resp_headers = corsHeaders\<rparr>, e)
         else case DB e of
                None \<Rightarrow>
                  (json (Err ''DB binding not found (env.DB is undefined)'') 500 corsHeaders, e)
              | Some d \<Rightarrow>
                  if req_method request = GET
                  then (case db_throws P SelectMessages of
                          Some detail \<Rightarrow>
                            (json (ErrDetail ''DB error on GET'' detail) 500 corsHeaders, e)
                        | None \<Rightarrow>
                            (json (OkData (select_latest (messages d))) 200 corsHeaders, e))
                  else if req_method request = POST
                  then post_branch P e d request
                  else (json (Err ''Method not allowed'') 405 corsHeaders, e))"

section \<open>The handler without the rate limiter\<close>

text \<open>
  \<open>functions/api/messages.js\<close>: the same routes, a fixed permissive CORS header set, no
  check of the binding and no \<open>try\<close> around the storage calls. The file declares
  \<open>sha256Hex\<close> and \<open>getClientIp\<close> and never calls them. An exception nothing catches
  leaves the handler without a response: \<open>None\<close>. That happens when \<open>env.DB\<close> is undefined
  or a statement throws, and when \<open>body?.text\<close> is truthy and not a string, since
  \<open>(body?.text || "").trim\<close> is then not a function.
\<close>

definition simple_cors :: "string \<rightharpoonup> jsstring" where
  "simple_cors =
     [''Access-Control-Allow-Origin'' \<mapsto> js ''*'',
      ''Access-Control-Allow-Methods'' \<mapsto> js ''GET,POST,OPTIONS'',
      ''Access-Control-Allow-Headers'' \<mapsto> js ''Content-Type'']"

definition simple_response :: "body \<Rightarrow> nat \<Rightarrow> response" where
  "simple_response data st =
     \<lparr>status = st, body = data,
      resp_headers = [''Content-Type'' \<mapsto> js ''application/json''] ++ simple_cors\<rparr>"

definition onRequest_simple :: "platform \<Rightarrow> env \<Rightarrow> request \<Rightarrow> response option \<times> env" where
  "onRequest_simple P e request =
     (if req_method request = OPTIONS
      then (Some \<lparr>status = 200, body = NoBody, resp_headers = simple_cors\<rparr>, e)
      else if req_method request = GET
      then (case DB e of
              None \<Rightarrow> (None, e)
            | Some d \<Rightarrow>
                (case db_throws P SelectMessages of
                   Some detail \<Rightarrow> (None, e)
                 | None \<Rightarrow> (Some (simple_response (OkData (select_latest (messages d))) 200), e)))
      else if req_method request = POST
      then (case req_json request of
              None \<Rightarrow> (Some (simple_response (Err ''Invalid JSON'') 400), e)
            | Some t \<Rightarrow>
                (case (if truthy t then t else Str []) of
                   Str s \<Rightarrow>
                     let text = js_trim s
                     in if text = [] \<or> length text > 50
                        then (Some (simple_response (Err ''Text must be 1-50 chars'') 400), e)
                        else let createdAt = date_now P
                             in (case DB e of
                                   None \<Rightarrow> (None, e)
                                 | Some d \<Rightarrow>
                                     (case db_throws P InsertMessage of
                                        Some detail \<Rightarrow> (None, e)
                                      | None \<Rightarrow>
                                          (Some (simple_response OkTrue 200),
                                           e\<lparr>DB := Some (insert_message text createdAt d)\<rparr>)))
                 | _ \<Rightarrow> (None, e)))
      else (Some (simple_response (Err ''Method not allowed'') 405), e))"

section \<open>Vocabulary of the properties\<close>

text \<open>A platform on which every storage call of the request completes.\<close>

definition storage_ok :: "platform \<Rightarrow> bool" where
  "storage_ok P \<longleftrightarrow>
     db_throws P SelectMessages = None \<and> db_throws P SelectRateLimit = None \<and>
     db_throws P UpsertRateLimit = None \<and> db_throws P InsertMessage = None"

text \<open>Newest first: no row is followed by a row created later.\<close>

definition newest_first :: "message list \<Rightarrow> bool" where
  "newest_first rows = sorted_wrt (\<lambda>a b. created_at b \<le> created_at a) rows"

text \<open>The number a string of decimal digits denotes, and the strings made of digits.\<close>

definition decimal_value :: "jsstring \<Rightarrow> nat" where
  "decimal_value s = foldl (\<lambda>acc c. 10 * acc + (unat c - 48)) 0 s"

definition all_digits :: "jsstring \<Rightarrow> bool" where
  "all_digits s \<longleftrightarrow> s \<noteq> [] \<and> list_all (\<lambda>c. 0x30 \<le> c \<and> c \<le> 0x39) s"

text \<open>
  The two decisions of the rate limiter, as the response and the store show them.
  Allowed: the request is not answered 429 and the store holds \<open>(clientKey, now)\<close>, the
  other entries as before. Throttled with \<open>ms\<close>: the answer is 429 with
  \<open>retry_after_ms = ms\<close> and the environment is unchanged.
\<close>

definition allowed :: "platform \<Rightarrow> env \<Rightarrow> request \<Rightarrow> bool" where
  "allowed P e req \<longleftrightarrow>
     status (fst (onRequest P e req)) \<noteq> 429 \<and>
     (\<exists>d. DB e = Some d \<and>
        map_option rate_limits (DB (snd (onRequest P e req))) =
          Some ((rate_limits d)(clientKey P e req \<mapsto> date_now P)))"

definition throttled :: "platform \<Rightarrow> env \<Rightarrow> request \<Rightarrow> int \<Rightarrow> bool" where
  "throttled P e req ms \<longleftrightarrow>
     status (fst (onRequest P e req)) = 429 \<and>
     body (fst (onRequest P e req)) = TooManyRequests ms \<and>
     snd (onRequest P e req) = e"

text \<open>
  The characters (code points) of a string: a high surrogate followed by a low surrogate
  is one character of two code units, any other code unit is a character by itself.
\<close>

definition is_high_surrogate :: "16 word \<Rightarrow> bool" where
  "is_high_surrogate c \<longleftrightarrow> 0xD800 \<le> c \<and> c \<le> 0xDBFF"

definition is_low_surrogate :: "16 word \<Rightarrow> bool" where
  "is_low_surrogate c \<longleftrightarrow> 0xDC00 \<le> c \<and> c \<le> 0xDFFF"

fun char_count :: "jsstring \<Rightarrow> nat" where
  "char_count [] = 0"
| "char_count [c] = 1"
| "char_count (c # d # cs) =
     (if is_high_surrogate c \<and> is_low_surrogate d then Suc (char_count cs)
      else Suc (char_count (d # cs)))"

section \<open>Instances for evaluation\<close>

text \<open>
  A platform whose storage calls complete and whose clock reads \<open>t\<close>; a digest that keeps
  the first eight bytes of its input stands in for SHA-256. Requests of the client
  \<open>10.0.0.7\<close>, whose key under that digest is \<open>sample_key\<close>.
\<close>

definition sample_platform :: "int \<Rightarrow> platform" where
  "sample_platform t =
     \<lparr>digest = (\<lambda>s. map ucast (take 8 s)), date_now = t, db_throws = (\<lambda>_. None)\<rparr>"

definition post_request :: "jsval option \<Rightarrow> request" where
  "post_request t =
     \<lparr>req_method = POST, req_headers = [''cf-connecting-ip'' \<mapsto> js ''10.0.0.7''], req_json = t\<rparr>"

definition get_request :: request where
  "get_request = \<lparr>req_method = GET, req_headers = Map.empty, req_json = None\<rparr>"

definition env_of :: "db \<Rightarrow> env" where
  "env_of d = \<lparr>DB = Some d, RATE_LIMIT_SALT = None\<rparr>"

definition sample_key :: jsstring where
  "sample_key = js ''31302e302e302e37''"

definition sample_row :: "int \<Rightarrow> int \<Rightarrow> message" where
  "sample_row i ts = \<lparr>msg_id = i, msg_text = js ''hi'', created_at = ts\<rparr>"

definition hello_request :: request where
  "hello_request = post_request (Some (Str (js ''hello'')))"

definition empty_request :: request where
  "empty_request = post_request (Some (Str []))"

definition fresh_db :: db where
  "fresh_db = \<lparr>messages = [], rate_limits = Map.empty\<rparr>"

text \<open>
  Ten rows stamped after 1700000000000, and a text of 26 characters outside the Basic
  Multilingual Plane (U+1F600, the surrogate pair D83D DE00), 52 code units long.
\<close>

definition newer_rows :: "message list" where
  "newer_rows = map (\<lambda>i. sample_row i (1700000001000 + i)) [1, 2, 3, 4, 5, 6, 7, 8, 9, 10]"

definition astral_text :: jsstring where
  "astral_text = concat (replicate 26 [0xD83D, 0xDE00])"

definition astral_request :: request where
  "astral_request = post_request (Some (Str astral_text))"

section \<open>Normalisation: agreement with the reference and idempotence\<close>

lemma spec_trim_leading_eq: "spec_trim_leading s = dropWhile is_ws s"
  by (induction s) auto

lemma spec_trim_trailing_eq: "spec_trim_trailing s = rev (dropWhile is_ws (rev s))"
  by (induction s) (auto simp: dropWhile_append)

lemma spec_collapse_eq: "spec_collapse s = js_replace_ws s"
  by (induction s rule: spec_collapse.induct) auto

text \<open>
  Claim C7. On a string and on a missing input, \<open>normalizeText\<close> of the handler computes
  the reference normalisation of Contract A: the empty string for a missing input, the
  input trimmed of whitespace at both ends, every run of whitespace collapsed to one
  ASCII space.
\<close>

theorem normalizeText_refines_spec:
  "normalizeText (Str s) = spec_normalize (Some s) \<and>
   normalizeText Undefined = spec_normalize None"
  by (simp add: normalizeText_def spec_normalize_def spec_coerce_def js_trim_def
        spec_trim_leading_eq spec_trim_trailing_eq spec_collapse_eq)

lemma js_replace_ws_Nil_iff: "js_replace_ws s = [] \<longleftrightarrow> s = []"
  by (cases s) auto

lemma dropWhile_js_replace_ws:
  "s = [] \<or> \<not> is_ws (hd s) \<Longrightarrow> dropWhile is_ws (js_replace_ws s) = js_replace_ws s"
  by (cases s) auto

lemma hd_dropWhile_ws: "dropWhile is_ws cs = [] \<or> \<not> is_ws (hd (dropWhile is_ws cs))"
  using hd_dropWhile [of is_ws cs] by blast

lemma js_replace_ws_idem: "js_replace_ws (js_replace_ws s) = js_replace_ws s"
proof (induction s rule: js_replace_ws.induct)
  case 1
  show ?case by simp
next
  case (2 c cs)
  show ?case
  proof (cases "is_ws c")
    case True
    have "is_ws 0x20" by (simp add: is_ws_def)
    with True 2 show ?thesis
      by (simp add: dropWhile_js_replace_ws [OF hd_dropWhile_ws])
  next
    case False
    with 2 show ?thesis by simp
  qed
qed

lemma last_js_replace_ws:
  "s \<noteq> [] \<Longrightarrow> \<not> is_ws (last s) \<Longrightarrow> \<not> is_ws (last (js_replace_ws s))"
proof (induction s rule: js_replace_ws.induct)
  case 1
  then show ?case by simp
next
  case (2 c cs)
  show ?case
  proof (cases "is_ws c")
    case True
    let ?r = "dropWhile is_ws cs"
    have ne: "?r \<noteq> []"
    proof
      assume "?r = []"
      then have "\<forall>x\<in>set cs. is_ws x" by (simp add: dropWhile_eq_Nil_conv)
      with True have "is_ws (last (c # cs))" by (cases cs) auto
      with 2(4) show False by simp
    qed
    then have cs: "cs \<noteq> []" by auto
    have "last ?r = last cs"
      using ne by (metis last_appendR takeWhile_dropWhile_id)
    with 2(4) cs have "\<not> is_ws (last ?r)" by simp
    with 2(1) [OF True ne] have "\<not> is_ws (last (js_replace_ws ?r))" by simp
    moreover have "js_replace_ws ?r \<noteq> []"
      using ne by (simp only: js_replace_ws_Nil_iff not_False_eq_True)
    ultimately show ?thesis using True by simp
  next
    case False
    show ?thesis
    proof (cases cs)
      case Nil
      with False show ?thesis by simp
    next
      case (Cons d ds)
      with 2(2) [OF False] 2(4) have "\<not> is_ws (last (js_replace_ws cs))" by simp
      with False Cons show ?thesis by (simp add: js_replace_ws_Nil_iff)
    qed
  qed
qed

lemma js_trim_id:
  assumes "s = [] \<or> (\<not> is_ws (hd s) \<and> \<not> is_ws (last s))"
  shows "js_trim s = s"
proof (cases s)
  case Nil
  then show ?thesis by (simp add: js_trim_def)
next
  case (Cons c cs)
  with assms have h: "\<not> is_ws (hd s)" and l: "\<not> is_ws (last s)" by auto
  from h Cons have 1: "dropWhile is_ws s = s" by simp
  from Cons have "hd (rev s) = last s" by (simp only: hd_rev list.distinct if_False)
  with l have "dropWhile is_ws (rev s) = rev s"
    by (simp only: dropWhile_eq_self_iff) simp
  with 1 show ?thesis by (simp add: js_trim_def)
qed

lemma js_trim_ends:
  "js_trim s = [] \<or> (\<not> is_ws (hd (js_trim s)) \<and> \<not> is_ws (last (js_trim s)))"
proof (cases "js_trim s = []")
  case True
  then show ?thesis by simp
next
  case False
  let ?u = "dropWhile is_ws (rev (dropWhile is_ws s))"
  from False have ne: "?u \<noteq> []" by (simp add: js_trim_def)
  then have l: "\<not> is_ws (hd ?u)" using hd_dropWhile [of is_ws] by blast
  have "last (js_trim s) = hd ?u" using ne by (simp add: js_trim_def last_rev)
  moreover have "hd (js_trim s) = last ?u" using ne by (simp add: js_trim_def hd_rev)
  moreover have "\<not> is_ws (last ?u)"
  proof -
    let ?t = "dropWhile is_ws s"
    have tne: "?t \<noteq> []"
    proof
      assume "?t = []"
      then have "?u = []" by (simp only: rev.simps dropWhile.simps)
      with ne show False by simp
    qed
    then have "\<not> is_ws (hd ?t)" using hd_dropWhile [of is_ws] by blast
    then have "\<not> is_ws (last (rev ?t))" using tne by (simp add: last_rev)
    moreover have "last ?u = last (rev ?t)"
      using ne by (metis last_appendR takeWhile_dropWhile_id)
    ultimately show ?thesis by simp
  qed
  ultimately show ?thesis using l by simp
qed

lemma hd_js_replace_ws:
  "s \<noteq> [] \<Longrightarrow> \<not> is_ws (hd s) \<Longrightarrow> \<not> is_ws (hd (js_replace_ws s))"
  by (cases s) auto

lemma js_trim_replace_trim: "js_trim (js_replace_ws (js_trim s)) = js_replace_ws (js_trim s)"
proof (rule js_trim_id)
  show "js_replace_ws (js_trim s) = [] \<or>
        (\<not> is_ws (hd (js_replace_ws (js_trim s))) \<and> \<not> is_ws (last (js_replace_ws (js_trim s))))"
    using js_trim_ends [of s] hd_js_replace_ws [of "js_trim s"] last_js_replace_ws [of "js_trim s"]
    by (auto simp: js_replace_ws_Nil_iff)
qed

text \<open>
  Claim C8. Normalisation is idempotent: normalising the result of \<open>normalizeText\<close> again
  gives the same string, for every input and so for every string.
\<close>

theorem normalizeText_idempotent:
  "normalizeText (Str (normalizeText v)) = normalizeText v"
proof -
  define x where "x = js_String (if truthy v then v else Str [])"
  have n: "normalizeText v = js_replace_ws (js_trim x)"
    by (simp add: normalizeText_def x_def)
  show ?thesis
  proof (cases "normalizeText v = []")
    case True
    then show ?thesis by (simp add: normalizeText_def js_trim_def)
  next
    case False
    then have "normalizeText (Str (normalizeText v)) = js_replace_ws (js_trim (normalizeText v))"
      by (simp add: normalizeText_def)
    also have "\<dots> = js_replace_ws (js_replace_ws (js_trim x))"
      by (simp only: n js_trim_replace_trim)
    also have "\<dots> = normalizeText v"
      by (simp only: n js_replace_ws_idem)
    finally show ?thesis .
  qed
qed

section \<open>The throttled answer\<close>

lemma status_json [simp]: "status (json b st h) = st"
  and body_json [simp]: "body (json b st h) = b"
  and headers_json: "resp_headers (json b st h) = [''Content-Type'' \<mapsto> js ''application/json; charset=utf-8''] ++ h"
  by (simp_all add: json_def)

lemma status_post_after_check: "status (fst (post_after_check P e d req)) \<in> {200, 400, 500}"
  by (simp add: post_after_check_def server_error_post_def Let_def split: option.split)

lemma post_branch_429:
  assumes "status (fst (post_branch P e d req)) = 429"
  shows "\<exists>ts. rate_limits d (clientKey P e req) = Some ts \<and> ts \<noteq> 0 \<and> date_now P - ts < WINDOW_MS \<and>
           post_branch P e d req = (too_many_requests (getCorsHeaders req) (date_now P) ts, e)"
proof -
  have na: "status (fst (post_after_check P e d req)) \<noteq> 429"
    using status_post_after_check [of P e d req] by auto
  show ?thesis
  proof (cases "db_throws P SelectRateLimit")
    case (Some a)
    with assms show ?thesis by (simp add: post_branch_def server_error_post_def)
  next
    case None
    show ?thesis
    proof (cases "rate_limits d (clientKey P e req)")
      case N: None
      with None assms na show ?thesis by (simp add: post_branch_def)
    next
      case (Some ts)
      with None assms na show ?thesis by (simp add: post_branch_def Let_def split: if_splits)
    qed
  qed
qed

lemma onRequest_429:
  assumes "status (fst (onRequest P e req)) = 429"
  shows "\<exists>d ts. DB e = Some d \<and> req_method req = POST \<and>
           rate_limits d (clientKey P e req) = Some ts \<and> ts \<noteq> 0 \<and> date_now P - ts < WINDOW_MS \<and>
           onRequest P e req = (too_many_requests (getCorsHeaders req) (date_now P) ts, e)"
proof -
  from assms obtain d where d: "DB e = Some d" and m: "req_method req = POST"
    by (auto simp: onRequest_def Let_def split: if_splits option.splits)
  with assms have "status (fst (post_branch P e d req)) = 429"
    by (simp add: onRequest_def)
  from post_branch_429 [OF this] d m show ?thesis
    by (auto simp: onRequest_def)
qed

lemma sample_clientKey:
  "clientKey (sample_platform t) (env_of d) (post_request x) = sample_key"
  by (simp add: clientKey_def sample_platform_def env_of_def post_request_def getClientIp_def
        sha256Hex_def byte_hex_def hex_digit_def js_def sample_key_def)

lemma sample_platform_simps:
  "date_now (sample_platform t) = t" "db_throws (sample_platform t) op = None"
  "storage_ok (sample_platform t)"
  by (simp_all add: sample_platform_def storage_ok_def)

lemma sample_throttled:
  assumes "rate_limits d sample_key = Some ts" "ts \<noteq> 0" "t - ts < 30000"
  shows "onRequest (sample_platform t) (env_of d) (post_request x) =
           (too_many_requests Map.empty t ts, env_of d)"
proof -
  have "post_branch (sample_platform t) (env_of d) d (post_request x) =
          (too_many_requests (getCorsHeaders (post_request x)) t ts, env_of d)"
    using assms
    by (simp add: post_branch_def sample_clientKey sample_platform_simps Let_def WINDOW_MS_def)
  moreover have "getCorsHeaders (post_request x) = Map.empty"
    by (simp add: getCorsHeaders_def post_request_def)
  ultimately show ?thesis
    by (simp add: onRequest_def) (simp add: env_of_def post_request_def)
qed

text \<open>
  Claim C4. A POST that is throttled (answered 429) changes nothing: the environment,
  with the rate-limit table and the messages table, is the one before the request. Such
  a POST has a stored entry for its client key with \<open>now - last_ts < 30000\<close>.
\<close>

theorem throttled_post_leaves_store:
  assumes "status (fst (onRequest P e req)) = 429"
  shows "snd (onRequest P e req) = e \<and>
         (\<exists>d ts. DB e = Some d \<and> req_method req = POST \<and>
                  rate_limits d (clientKey P e req) = Some ts \<and> date_now P - ts < 30000)"
  using onRequest_429 [OF assms] by (auto simp: WINDOW_MS_def)

theorem throttled_post_leaves_store_witness:
  "status (fst (onRequest (sample_platform 1700000010000)
      (env_of \<lparr>messages = [], rate_limits = [sample_key \<mapsto> 1700000000000]\<rparr>)
      (post_request (Some (Str (js ''again'')))))) = 429 \<and>
   snd (onRequest (sample_platform 1700000010000)
      (env_of \<lparr>messages = [], rate_limits = [sample_key \<mapsto> 1700000000000]\<rparr>)
      (post_request (Some (Str (js ''again''))))) =
     env_of \<lparr>messages = [], rate_limits = [sample_key \<mapsto> 1700000000000]\<rparr>"
proof -
  let ?d = "\<lparr>messages = [], rate_limits = [sample_key \<mapsto> 1700000000000]\<rparr>"
  have "onRequest (sample_platform 1700000010000) (env_of ?d) (post_request (Some (Str (js ''again'')))) =
          (too_many_requests Map.empty 1700000010000 1700000000000, env_of ?d)"
    by (rule sample_throttled) simp_all
  then have h: "status (fst (onRequest (sample_platform 1700000010000) (env_of ?d)
             (post_request (Some (Str (js ''again'')))))) = 429"
    by (simp add: too_many_requests_def Let_def)
  from throttled_post_leaves_store [OF h] h show ?thesis by blast
qed

section \<open>Reading the latest messages\<close>

lemma newest_first_select_latest: "newest_first (select_latest ms)"
proof -
  have "sorted (map (\<lambda>m. - created_at m) (sort_key (\<lambda>m. - created_at m) ms))"
    by (rule sorted_sort_key)
  then have "sorted_wrt (\<lambda>a b. created_at b \<le> created_at a) (sort_key (\<lambda>m. - created_at m) ms)"
    by (simp add: sorted_map)
  then show ?thesis
    unfolding newest_first_def select_latest_def by (rule sorted_wrt_take)
qed

lemma length_select_latest: "length (select_latest ms) \<le> 10"
  by (simp add: select_latest_def)

lemma set_select_latest: "set (select_latest ms) \<subseteq> set ms"
  using set_take_subset [of 10 "sort_key (\<lambda>m. - created_at m) ms"] by (simp add: select_latest_def)

text \<open>
  Claim C9. A successful GET (status 200) carries at most ten messages, ordered by
  \<open>created_at\<close> descending, all of them rows of the messages table; in the handler with
  the rate limiter and in the one without.
\<close>

theorem get_returns_latest_ten:
  "(req_method req = GET \<and> status (fst (onRequest P e req)) = 200 \<longrightarrow>
      (\<exists>d rows. DB e = Some d \<and> body (fst (onRequest P e req)) = OkData rows \<and>
         length rows \<le> 10 \<and> newest_first rows \<and> set rows \<subseteq> set (messages d))) \<and>
   (\<forall>r. req_method req = GET \<and> fst (onRequest_simple P e req) = Some r \<and> status r = 200 \<longrightarrow>
      (\<exists>d rows. DB e = Some d \<and> body r = OkData rows \<and>
         length rows \<le> 10 \<and> newest_first rows \<and> set rows \<subseteq> set (messages d)))"
  by (auto simp: onRequest_def onRequest_simple_def simple_response_def Let_def
        newest_first_select_latest length_select_latest set_select_latest [THEN subsetD]
        split: option.splits)

theorem get_returns_latest_ten_witness:
  "req_method get_request = GET \<and>
   status (fst (onRequest (sample_platform 1700000000000)
      (env_of \<lparr>messages = [sample_row 1 5, sample_row 2 9, sample_row 3 7], rate_limits = Map.empty\<rparr>)
      get_request)) = 200 \<and>
   (\<exists>d rows. DB (env_of \<lparr>messages = [sample_row 1 5, sample_row 2 9, sample_row 3 7],
                             rate_limits = Map.empty\<rparr>) = Some d \<and>
      body (fst (onRequest (sample_platform 1700000000000)
        (env_of \<lparr>messages = [sample_row 1 5, sample_row 2 9, sample_row 3 7], rate_limits = Map.empty\<rparr>)
        get_request)) = OkData rows \<and>
      length rows \<le> 10 \<and> newest_first rows \<and> set rows \<subseteq> set (messages d)) \<and>
   fst (onRequest_simple (sample_platform 1700000000000)
      (env_of \<lparr>messages = [sample_row 1 5, sample_row 2 9, sample_row 3 7], rate_limits = Map.empty\<rparr>)
      get_request) =
     Some (simple_response (OkData [sample_row 2 9, sample_row 3 7, sample_row 1 5]) 200) \<and>
   newest_first [sample_row 2 9, sample_row 3 7, sample_row 1 5]"
proof -
  let ?e = "env_of \<lparr>messages = [sample_row 1 5, sample_row 2 9, sample_row 3 7],
                     rate_limits = Map.empty\<rparr>"
  let ?P = "sample_platform 1700000000000"
  have m: "req_method get_request = GET" by (simp add: get_request_def)
  have h: "status (fst (onRequest ?P ?e get_request)) = 200"
    by (simp add: onRequest_def get_request_def env_of_def sample_platform_def)
  have s: "fst (onRequest_simple ?P ?e get_request) =
     Some (simple_response (OkData [sample_row 2 9, sample_row 3 7, sample_row 1 5]) 200)"
    by (simp add: onRequest_simple_def get_request_def env_of_def sample_platform_def
          select_latest_def sample_row_def)
  note th = get_returns_latest_ten [of get_request ?P ?e]
  from th [THEN conjunct2, rule_format, of "simple_response (OkData [sample_row 2 9, sample_row 3 7, sample_row 1 5]) 200"]
    m s
  have "newest_first [sample_row 2 9, sample_row 3 7, sample_row 1 5]"
    by (auto simp: simple_response_def)
  with th m h s show ?thesis by blast
qed

section \<open>The retry hint\<close>

lemma Math_ceil_div1000_eq: "Math_ceil_div1000 ms = (ms + 999) div 1000"
  unfolding Math_ceil_div1000_def by linarith

lemma Math_ceil_div1000_bounds:
  "1000 * (Math_ceil_div1000 ms - 1) < ms \<and> ms \<le> 1000 * Math_ceil_div1000 ms"
proof -
  have "real_of_int ms / 1000 \<le> of_int (Math_ceil_div1000 ms)"
    and "of_int (Math_ceil_div1000 ms) - 1 < real_of_int ms / 1000"
    unfolding Math_ceil_div1000_def by linarith+
  then have "real_of_int ms \<le> real_of_int (1000 * Math_ceil_div1000 ms)"
    and "real_of_int (1000 * (Math_ceil_div1000 ms - 1)) < real_of_int ms"
    by simp_all
  then show ?thesis by linarith
qed

lemma digit_word_range: "d < 10 \<Longrightarrow> (0x30::16 word) \<le> word_of_nat (48 + d) \<and> (word_of_nat (48 + d) :: 16 word) \<le> 0x39"
  by (simp add: word_le_nat_alt unat_word_ariths unat_of_nat)

lemma unat_digit_word: "d < 10 \<Longrightarrow> unat (word_of_nat (48 + d) :: 16 word) - 48 = d"
  by (simp add: unat_word_ariths unat_of_nat)

lemma all_digits_digits10: "all_digits (digits10 n)"
proof (induction n rule: digits10.induct)
  case (1 n)
  show ?case
  proof (cases "n < 10")
    case True
    then show ?thesis
      using digit_word_range [of n] by (subst digits10.simps) (simp add: all_digits_def)
  next
    case False
    with 1 digit_word_range [of "n mod 10"] show ?thesis
      by (subst digits10.simps) (simp add: all_digits_def)
  qed
qed

lemma decimal_value_digits10: "decimal_value (digits10 n) = n"
proof (induction n rule: digits10.induct)
  case (1 n)
  show ?case
  proof (cases "n < 10")
    case True
    then show ?thesis
      using unat_digit_word [of n] by (subst digits10.simps) (simp add: decimal_value_def)
  next
    case False
    with 1 unat_digit_word [of "n mod 10"] show ?thesis
      by (subst digits10.simps) (simp add: decimal_value_def)
  qed
qed

text \<open>
  Claim C10. A throttled POST (status 429) has the body
  \<open>{ok: false, error: "Too many requests", retry_after_ms}\<close> and a \<open>Retry-After\<close> header
  whose value is \<open>retry_after_ms / 1000\<close> rounded up to whole seconds, the least \<open>sec\<close>
  with \<open>retry_after_ms \<le> 1000 * sec\<close>, written as a string of decimal digits that
  denotes that number.
\<close>

theorem throttled_response_shape:
  assumes "status (fst (onRequest P e req)) = 429"
  shows "\<exists>ms sec. body (fst (onRequest P e req)) = TooManyRequests ms \<and>
           resp_headers (fst (onRequest P e req)) ''Retry-After'' = Some (js_String_num sec) \<and>
           sec = \<lceil>real_of_int ms / 1000\<rceil> \<and>
           1000 * (sec - 1) < ms \<and> ms \<le> 1000 * sec \<and>
           all_digits (js_String_num sec) \<and> int (decimal_value (js_String_num sec)) = sec"
proof -
  from onRequest_429 [OF assms] obtain d ts where
    ts: "date_now P - ts < WINDOW_MS" and
    r: "onRequest P e req = (too_many_requests (getCorsHeaders req) (date_now P) ts, e)"
    by blast
  define ms where "ms = WINDOW_MS - (date_now P - ts)"
  define sec where "sec = Math_ceil_div1000 ms"
  have pos: "0 < ms" using ts by (simp add: ms_def)
  have b: "1000 * (sec - 1) < ms \<and> ms \<le> 1000 * sec"
    unfolding sec_def by (rule Math_ceil_div1000_bounds)
  with pos have sp: "0 < sec" by linarith
  then have s: "js_String_num sec = digits10 (nat sec)" by (simp add: js_String_num_def)
  have "body (fst (onRequest P e req)) = TooManyRequests ms"
    by (simp add: r too_many_requests_def Let_def ms_def)
  moreover have "resp_headers (fst (onRequest P e req)) ''Retry-After'' = Some (js_String_num sec)"
    by (simp add: r too_many_requests_def Let_def ms_def sec_def headers_json)
  moreover have "sec = \<lceil>real_of_int ms / 1000\<rceil>" by (simp add: sec_def Math_ceil_div1000_def)
  moreover have "all_digits (js_String_num sec)" by (simp only: s all_digits_digits10)
  moreover have "int (decimal_value (js_String_num sec)) = sec"
    using sp by (simp add: s decimal_value_digits10)
  ultimately show ?thesis using b by blast
qed

theorem throttled_response_shape_witness:
  "status (fst (onRequest (sample_platform 1700000010500)
      (env_of \<lparr>messages = [], rate_limits = [sample_key \<mapsto> 1700000000000]\<rparr>)
      (post_request (Some (Str (js ''again'')))))) = 429 \<and>
   (\<exists>ms sec. body (fst (onRequest (sample_platform 1700000010500)
      (env_of \<lparr>messages = [], rate_limits = [sample_key \<mapsto> 1700000000000]\<rparr>)
      (post_request (Some (Str (js ''again'')))))) = TooManyRequests ms \<and>
      resp_headers (fst (onRequest (sample_platform 1700000010500)
        (env_of \<lparr>messages = [], rate_limits = [sample_key \<mapsto> 1700000000000]\<rparr>)
        (post_request (Some (Str (js ''again'')))))) ''Retry-After'' = Some (js_String_num sec) \<and>
      sec = \<lceil>real_of_int ms / 1000\<rceil> \<and> 1000 * (sec - 1) < ms \<and> ms \<le> 1000 * sec \<and>
      all_digits (js_String_num sec) \<and> int (decimal_value (js_String_num sec)) = sec)"
proof -
  let ?d = "\<lparr>messages = [], rate_limits = [sample_key \<mapsto> 1700000000000]\<rparr>"
  have "onRequest (sample_platform 1700000010500) (env_of ?d) (post_request (Some (Str (js ''again'')))) =
          (too_many_requests Map.empty 1700000010500 1700000000000, env_of ?d)"
    by (rule sample_throttled) simp_all
  then have h: "status (fst (onRequest (sample_platform 1700000010500) (env_of ?d)
             (post_request (Some (Str (js ''again'')))))) = 429"
    by (simp add: too_many_requests_def Let_def)
  from throttled_response_shape [OF h] h show ?thesis by blast
qed

section \<open>The rate-limit decision\<close>

lemma onRequest_POST:
  "req_method req = POST \<Longrightarrow> DB e = Some d \<Longrightarrow> onRequest P e req = post_branch P e d req"
  by (simp add: onRequest_def)

lemma post_after_check_upsert:
  assumes "db_throws P UpsertRateLimit = None"
  shows "status (fst (post_after_check P e d req)) \<noteq> 429 \<and>
         map_option rate_limits (DB (snd (post_after_check P e d req))) =
           Some ((rate_limits d)(clientKey P e req \<mapsto> date_now P))"
  using assms
  by (simp add: post_after_check_def Let_def upsert_rate_limit_def insert_message_def
        server_error_post_def split: option.split)

lemma post_after_check_400:
  assumes "status (fst (post_after_check P e d req)) = 400"
  shows "snd (post_after_check P e d req) =
           e\<lparr>DB := Some (upsert_rate_limit (clientKey P e req) (date_now P) d)\<rparr>"
  using assms
  by (auto simp: post_after_check_def Let_def server_error_post_def split: option.splits if_splits)

lemma post_after_check_messages:
  assumes "DB e = Some d" "req_json req = None \<or>
           (\<exists>t. req_json req = Some t \<and> (length (normalizeText t) = 0 \<or> 50 < length (normalizeText t)))"
  shows "map_option messages (DB (snd (post_after_check P e d req))) = Some (messages d)"
  using assms
  by (auto simp: post_after_check_def Let_def upsert_rate_limit_def split: option.split)

lemma post_after_check_invalid:
  assumes "db_throws P UpsertRateLimit = None" "req_json req = Some t"
    "length (normalizeText t) = 0 \<or> 50 < length (normalizeText t)"
  shows "fst (post_after_check P e d req) = json (Err ''Text must be 1-50 chars'') 400 (getCorsHeaders req)"
  using assms by (auto simp: post_after_check_def Let_def)

lemma post_after_check_valid:
  assumes "db_throws P UpsertRateLimit = None" "db_throws P InsertMessage = None"
    "req_json req = Some t" "1 \<le> length (normalizeText t)" "length (normalizeText t) \<le> 50"
  shows "post_after_check P e d req =
           (json OkTrue 200 (getCorsHeaders req),
            e\<lparr>DB := Some (insert_message (normalizeText t) (date_now P)
                           (upsert_rate_limit (clientKey P e req) (date_now P) d))\<rparr>)"
  using assms by (auto simp: post_after_check_def Let_def)

lemma post_branch_pass:
  assumes "db_throws P SelectRateLimit = None"
    and "case rate_limits d (clientKey P e req) of None \<Rightarrow> True
         | Some ts \<Rightarrow> ts = 0 \<or> WINDOW_MS \<le> date_now P - ts"
  shows "post_branch P e d req = post_after_check P e d req"
  using assms by (auto simp: post_branch_def Let_def split: option.splits)

lemma post_branch_throttle:
  assumes "db_throws P SelectRateLimit = None"
    and "rate_limits d (clientKey P e req) = Some ts" "ts \<noteq> 0" "date_now P - ts < WINDOW_MS"
  shows "post_branch P e d req = (too_many_requests (getCorsHeaders req) (date_now P) ts, e)"
  using assms by (simp add: post_branch_def Let_def)

lemma decision_allowed:
  assumes "DB e = Some d" "req_method req = POST"
    and "db_throws P SelectRateLimit = None" "db_throws P UpsertRateLimit = None"
    and "rate_limits d (clientKey P e req) = None \<or>
         (\<exists>ts. rate_limits d (clientKey P e req) = Some ts \<and> 30000 \<le> date_now P - ts)"
  shows "allowed P e req"
proof -
  from assms(5) have "case rate_limits d (clientKey P e req) of None \<Rightarrow> True
         | Some ts \<Rightarrow> ts = 0 \<or> WINDOW_MS \<le> date_now P - ts"
    by (auto simp: WINDOW_MS_def)
  from post_branch_pass [OF assms(3) this] onRequest_POST [OF assms(2,1)]
  have "onRequest P e req = post_after_check P e d req" by simp
  with post_after_check_upsert [OF assms(4), of e d req] assms(1)
  show ?thesis by (simp add: allowed_def)
qed

lemma decision_throttled:
  assumes "DB e = Some d" "req_method req = POST"
    and "db_throws P SelectRateLimit = None"
    and "rate_limits d (clientKey P e req) = Some ts" "ts \<noteq> 0" "date_now P - ts < 30000"
  shows "throttled P e req (30000 - (date_now P - ts))"
proof -
  from assms(6) have "date_now P - ts < WINDOW_MS" by (simp add: WINDOW_MS_def)
  from post_branch_throttle [OF assms(3,4,5) this] onRequest_POST [OF assms(2,1)]
  have "onRequest P e req = (too_many_requests (getCorsHeaders req) (date_now P) ts, e)" by simp
  then show ?thesis
    by (simp add: throttled_def too_many_requests_def Let_def json_def WINDOW_MS_def)
qed

text \<open>
  A stored \<open>last_ts\<close> of 0 is falsy in \<open>rlRow?.last_ts && \<dots>\<close>: the request passes as if
  the key had no entry, whatever the clock reads.
\<close>

lemma stored_zero_is_allowed:
  assumes "DB e = Some d" "req_method req = POST"
    and "db_throws P SelectRateLimit = None" "db_throws P UpsertRateLimit = None"
    and "rate_limits d (clientKey P e req) = Some 0"
  shows "allowed P e req"
proof -
  from assms(5) have "case rate_limits d (clientKey P e req) of None \<Rightarrow> True
         | Some ts \<Rightarrow> ts = 0 \<or> WINDOW_MS \<le> date_now P - ts"
    by simp
  from post_branch_pass [OF assms(3) this] onRequest_POST [OF assms(2,1)]
  have "onRequest P e req = post_after_check P e d req" by simp
  with post_after_check_upsert [OF assms(4), of e d req] assms(1)
  show ?thesis by (simp add: allowed_def)
qed

subsection \<open>Evaluation of the instances\<close>

lemma sample_cors:
  "getCorsHeaders (post_request x) = Map.empty" "getCorsHeaders get_request = Map.empty"
  by (simp_all add: getCorsHeaders_def post_request_def get_request_def)

lemma sample_request_simps:
  "req_method (post_request x) = POST" "req_json (post_request x) = x"
  "req_method get_request = GET" "DB (env_of d) = Some d"
  "(env_of d)\<lparr>DB := Some d'\<rparr> = env_of d'"
  by (simp_all add: post_request_def get_request_def env_of_def)

lemma normalizeText_hello: "normalizeText (Str (js ''hello'')) = js ''hello''"
  by (simp add: normalizeText_def js_trim_def js_def is_ws_def)

lemma normalizeText_empty: "normalizeText (Str []) = []"
  by (simp add: normalizeText_def js_trim_def)

lemma length_hello: "length (js ''hello'') = 5" "js ''hello'' \<noteq> []"
  by (simp_all add: js_def)

lemma sample_passed:
  assumes "case rate_limits d sample_key of None \<Rightarrow> True | Some ts \<Rightarrow> ts = 0 \<or> 30000 \<le> t - ts"
  shows "onRequest (sample_platform t) (env_of d) (post_request x) =
           post_after_check (sample_platform t) (env_of d) d (post_request x)"
proof -
  have "onRequest (sample_platform t) (env_of d) (post_request x) =
          post_branch (sample_platform t) (env_of d) d (post_request x)"
    by (rule onRequest_POST) (simp_all add: sample_request_simps)
  also have "\<dots> = post_after_check (sample_platform t) (env_of d) d (post_request x)"
    using assms
    by (intro post_branch_pass)
       (simp_all add: sample_platform_simps sample_clientKey WINDOW_MS_def split: option.splits)
  finally show ?thesis .
qed

lemma sample_post_hello:
  assumes "case rate_limits d sample_key of None \<Rightarrow> True | Some ts \<Rightarrow> ts = 0 \<or> 30000 \<le> t - ts"
  shows "onRequest (sample_platform t) (env_of d) hello_request =
           (json OkTrue 200 Map.empty,
            env_of (insert_message (js ''hello'') t (upsert_rate_limit sample_key t d)))"
  unfolding hello_request_def sample_passed [OF assms]
  by (simp add: post_after_check_def sample_platform_simps sample_request_simps sample_cors
        sample_clientKey normalizeText_hello length_hello Let_def)

lemma sample_post_empty:
  assumes "case rate_limits d sample_key of None \<Rightarrow> True | Some ts \<Rightarrow> ts = 0 \<or> 30000 \<le> t - ts"
  shows "onRequest (sample_platform t) (env_of d) empty_request =
           (json (Err ''Text must be 1-50 chars'') 400 Map.empty,
            env_of (upsert_rate_limit sample_key t d))"
  unfolding empty_request_def sample_passed [OF assms]
  by (simp add: post_after_check_def sample_platform_simps sample_request_simps sample_cors
        sample_clientKey normalizeText_empty Let_def)

lemma sample_get:
  "onRequest (sample_platform t) (env_of d) get_request =
     (json (OkData (select_latest (messages d))) 200 Map.empty, env_of d)"
  by (simp add: onRequest_def sample_platform_simps sample_request_simps sample_cors)

lemma sample_simple_hello:
  "onRequest_simple (sample_platform t) (env_of d) hello_request =
     (Some (simple_response OkTrue 200), env_of (insert_message (js ''hello'') t d))"
  by (simp add: onRequest_simple_def hello_request_def sample_platform_simps sample_request_simps
        js_trim_def js_def is_ws_def Let_def)

lemma fresh_db_simps: "messages fresh_db = []" "rate_limits fresh_db k = None"
  by (simp_all add: fresh_db_def)

lemma hello_request_simps:
  "req_method hello_request = POST" "req_json hello_request = Some (Str (js ''hello''))"
  "req_method empty_request = POST" "req_json empty_request = Some (Str [])"
  "getCorsHeaders hello_request = Map.empty" "getCorsHeaders empty_request = Map.empty"
  "clientKey (sample_platform t) (env_of d) hello_request = sample_key"
  "clientKey (sample_platform t) (env_of d) empty_request = sample_key"
  by (simp_all add: hello_request_def empty_request_def sample_request_simps sample_cors
        sample_clientKey)

subsection \<open>The decision and two requests in a row\<close>

text \<open>
  Claim C1. For a POST to the handler with the rate limiter, the binding present and
  the read and the upsert of the rate-limit row completing: if the key has no stored
  entry or \<open>now - last_ts \<ge> 30000\<close>, the request is allowed and \<open>(clientKey, now)\<close> is
  upserted; if an entry with \<open>last_ts\<close> other than 0 is stored and \<open>now - last_ts < 30000\<close>,
  the request is throttled with \<open>retry_after_ms = 30000 - (now - last_ts)\<close>, which is
  positive, and at most 30000 when \<open>last_ts \<le> now\<close>. Of two POSTs of one client key of
  which the first was allowed (at a time other than 0), the second is throttled when it
  comes less than 30000 ms after the first and allowed when at least 30000 ms after it.
\<close>

theorem rate_limit_decision:
  assumes "DB e = Some d" "req_method req = POST"
    and "db_throws P SelectRateLimit = None" "db_throws P UpsertRateLimit = None"
  shows
    "(rate_limits d (clientKey P e req) = None \<or>
      (\<exists>ts. rate_limits d (clientKey P e req) = Some ts \<and> 30000 \<le> date_now P - ts)
        \<longrightarrow> allowed P e req) \<and>
     (\<forall>ts. rate_limits d (clientKey P e req) = Some ts \<and> ts \<noteq> 0 \<and> date_now P - ts < 30000
        \<longrightarrow> throttled P e req (30000 - (date_now P - ts)) \<and>
            0 < 30000 - (date_now P - ts) \<and>
            (ts \<le> date_now P \<longrightarrow> 30000 - (date_now P - ts) \<le> 30000)) \<and>
     (\<forall>P2 req2. allowed P e req \<and> req_method req2 = POST \<and>
          db_throws P2 SelectRateLimit = None \<and> db_throws P2 UpsertRateLimit = None \<and>
          clientKey P2 (snd (onRequest P e req)) req2 = clientKey P e req
        \<longrightarrow> (date_now P \<noteq> 0 \<and> 0 \<le> date_now P2 - date_now P \<and> date_now P2 - date_now P < 30000
              \<longrightarrow> throttled P2 (snd (onRequest P e req)) req2 (30000 - (date_now P2 - date_now P)) \<and>
                  0 < 30000 - (date_now P2 - date_now P) \<and>
                  30000 - (date_now P2 - date_now P) \<le> 30000) \<and>
            (30000 \<le> date_now P2 - date_now P
              \<longrightarrow> allowed P2 (snd (onRequest P e req)) req2))"
proof (intro conjI allI impI)
  assume "rate_limits d (clientKey P e req) = None \<or>
      (\<exists>ts. rate_limits d (clientKey P e req) = Some ts \<and> 30000 \<le> date_now P - ts)"
  then show "allowed P e req" by (rule decision_allowed [OF assms])
next
  fix ts
  assume "rate_limits d (clientKey P e req) = Some ts \<and> ts \<noteq> 0 \<and> date_now P - ts < 30000"
  then show "throttled P e req (30000 - (date_now P - ts))"
    using decision_throttled [OF assms(1,2,3)] by blast
next
  fix P2 req2
  assume a: "allowed P e req \<and> req_method req2 = POST \<and>
          db_throws P2 SelectRateLimit = None \<and> db_throws P2 UpsertRateLimit = None \<and>
          clientKey P2 (snd (onRequest P e req)) req2 = clientKey P e req"
  let ?e = "snd (onRequest P e req)"
  from a assms(1) obtain d' where d': "DB ?e = Some d'"
    and r: "rate_limits d' = (rate_limits d)(clientKey P e req \<mapsto> date_now P)"
    by (auto simp: allowed_def)
  from r a have k: "rate_limits d' (clientKey P2 ?e req2) = Some (date_now P)" by simp
  from a have m2: "req_method req2 = POST" and s2: "db_throws P2 SelectRateLimit = None"
    and u2: "db_throws P2 UpsertRateLimit = None" by simp_all
  {
    assume "date_now P \<noteq> 0 \<and> 0 \<le> date_now P2 - date_now P \<and> date_now P2 - date_now P < 30000"
    then have "date_now P \<noteq> 0" and "date_now P2 - date_now P < 30000" by simp_all
    then show "throttled P2 ?e req2 (30000 - (date_now P2 - date_now P))"
      by (rule decision_throttled [OF d' m2 s2 k])
  }
  {
    assume "30000 \<le> date_now P2 - date_now P"
    with k have "rate_limits d' (clientKey P2 ?e req2) = None \<or>
         (\<exists>ts. rate_limits d' (clientKey P2 ?e req2) = Some ts \<and> 30000 \<le> date_now P2 - ts)"
      by simp
    then show "allowed P2 ?e req2"
      by (rule decision_allowed [OF d' m2 s2 u2])
  }
qed simp_all

text \<open>
  As the specification words it, the second of any two POSTs of one key less than
  30000 ms apart is throttled, and \<open>retry_after_ms\<close> never exceeds 30000. With an entry
  stored at 1700000000000, a POST 29000 ms later is throttled and leaves the entry as it
  is, so that a POST 2000 ms after that one is accepted. And with an entry stored 60000 ms
  ahead of the clock, \<open>retry_after_ms\<close> is 90000.
\<close>

theorem rate_limit_decision_counterexample:
  "status (fst (onRequest (sample_platform 1700000029000)
      (env_of \<lparr>messages = [], rate_limits = [sample_key \<mapsto> 1700000000000]\<rparr>) hello_request)) = 429 \<and>
   status (fst (onRequest (sample_platform 1700000031000)
      (snd (onRequest (sample_platform 1700000029000)
         (env_of \<lparr>messages = [], rate_limits = [sample_key \<mapsto> 1700000000000]\<rparr>) hello_request))
      hello_request)) = 200 \<and>
   body (fst (onRequest (sample_platform 1700000000000)
      (env_of \<lparr>messages = [], rate_limits = [sample_key \<mapsto> 1700000060000]\<rparr>) hello_request))
     = TooManyRequests 90000"
proof -
  let ?d = "\<lparr>messages = [], rate_limits = [sample_key \<mapsto> 1700000000000]\<rparr>"
  have 1: "onRequest (sample_platform 1700000029000) (env_of ?d) hello_request =
             (too_many_requests Map.empty 1700000029000 1700000000000, env_of ?d)"
    unfolding hello_request_def by (rule sample_throttled) simp_all
  have 2: "status (fst (onRequest (sample_platform 1700000031000) (env_of ?d) hello_request)) = 200"
    by (subst sample_post_hello) simp_all
  have 3: "onRequest (sample_platform 1700000000000)
      (env_of \<lparr>messages = [], rate_limits = [sample_key \<mapsto> 1700000060000]\<rparr>) hello_request =
       (too_many_requests Map.empty 1700000000000 1700000060000,
        env_of \<lparr>messages = [], rate_limits = [sample_key \<mapsto> 1700000060000]\<rparr>)"
    unfolding hello_request_def by (rule sample_throttled) simp_all
  show ?thesis
    using 2 by (simp add: 1 3 too_many_requests_def Let_def WINDOW_MS_def)
qed

theorem rate_limit_decision_witness:
  "allowed (sample_platform 1700000000000) (env_of fresh_db) hello_request \<and>
   throttled (sample_platform 1700000001000)
     (snd (onRequest (sample_platform 1700000000000) (env_of fresh_db) hello_request))
     hello_request 29000 \<and>
   allowed (sample_platform 1700000030000)
     (snd (onRequest (sample_platform 1700000000000) (env_of fresh_db) hello_request))
     hello_request \<and>
   throttled (sample_platform 1700000010000)
     (env_of \<lparr>messages = [], rate_limits = [sample_key \<mapsto> 1700000000000]\<rparr>)
     hello_request 20000"
proof -
  let ?P = "sample_platform 1700000000000"
  let ?e' = "snd (onRequest ?P (env_of fresh_db) hello_request)"
  let ?d = "\<lparr>messages = [], rate_limits = [sample_key \<mapsto> 1700000000000]\<rparr>"
  have k: "clientKey ?P (env_of fresh_db) hello_request = sample_key"
    "\<And>t. clientKey (sample_platform t) ?e' hello_request = sample_key"
    by (simp_all add: hello_request_def sample_clientKey sample_post_hello [unfolded hello_request_def]
          fresh_db_simps)
  have m: "req_method hello_request = POST"
    by (simp add: hello_request_def sample_request_simps)
  note th = rate_limit_decision [of "env_of fresh_db" fresh_db hello_request ?P,
      OF sample_request_simps(4) m sample_platform_simps(2) sample_platform_simps(2)]
  from th have a: "allowed ?P (env_of fresh_db) hello_request"
    by (simp add: k fresh_db_simps)
  have pre: "allowed ?P (env_of fresh_db) hello_request \<and> req_method hello_request = POST \<and>
      db_throws (sample_platform t) SelectRateLimit = None \<and>
      db_throws (sample_platform t) UpsertRateLimit = None \<and>
      clientKey (sample_platform t) ?e' hello_request = clientKey ?P (env_of fresh_db) hello_request"
    for t using a m k by (simp add: sample_platform_simps)
  note two = th [THEN conjunct2, THEN conjunct2, rule_format, OF pre]
  from two [of 1700000001000]
  have "throttled (sample_platform 1700000001000) ?e' hello_request 29000"
    by (simp add: sample_platform_simps)
  moreover from two [of 1700000030000]
  have "allowed (sample_platform 1700000030000) ?e' hello_request"
    by (simp add: sample_platform_simps)
  moreover from rate_limit_decision [of "env_of ?d" ?d hello_request "sample_platform 1700000010000",
      OF sample_request_simps(4) m sample_platform_simps(2) sample_platform_simps(2),
      THEN conjunct2, THEN conjunct1, rule_format, of 1700000000000]
  have "throttled (sample_platform 1700000010000) (env_of ?d) hello_request 20000"
    by (simp add: hello_request_simps sample_platform_simps)
  ultimately show ?thesis using a by simp
qed

section \<open>Accepted and rejected submissions\<close>

lemma in_take_sorted:
  assumes s: "sorted (map k ys)" and x: "x \<in> set ys"
    and c: "length (filter (\<lambda>y. k y \<le> k x) ys) \<le> n"
  shows "x \<in> set (take n ys)"
proof (rule ccontr)
  assume nx: "x \<notin> set (take n ys)"
  have ys: "ys = take n ys @ drop n ys" by simp
  with x nx have xd: "x \<in> set (drop n ys)"
    by (metis Un_iff set_append)
  then have "n < length ys" by (cases "n < length ys") auto
  then have ln: "length (take n ys) = n" by simp
  from s have "sorted (map k (take n ys) @ map k (drop n ys))"
    by (simp only: map_append [symmetric] append_take_drop_id)
  then have "\<forall>a\<in>set (take n ys). k a \<le> k x"
    using xd by (auto simp: sorted_append)
  then have "filter (\<lambda>y. k y \<le> k x) (take n ys) = take n ys" by simp
  moreover from xd have "filter (\<lambda>y. k y \<le> k x) (drop n ys) \<noteq> []"
    by (auto simp: filter_empty_conv)
  moreover have "filter (\<lambda>y. k y \<le> k x) ys =
      filter (\<lambda>y. k y \<le> k x) (take n ys) @ filter (\<lambda>y. k y \<le> k x) (drop n ys)"
    by (simp only: filter_append [symmetric] append_take_drop_id)
  ultimately have "n < length (filter (\<lambda>y. k y \<le> k x) ys)"
    using ln by (cases "filter (\<lambda>y. k y \<le> k x) (drop n ys)") auto
  with c show False by simp
qed

lemma length_filter_sort_key: "length (filter Q (sort_key k zs)) = length (filter Q zs)"
  by (simp add: filter_sort)

lemma recent_row_in_select_latest:
  assumes "x \<in> set ms" "length (filter (\<lambda>m. created_at x \<le> created_at m) ms) \<le> 10"
  shows "x \<in> set (select_latest ms)"
  unfolding select_latest_def
proof (rule in_take_sorted [where k = "\<lambda>m. - created_at m"])
  show "sorted (map (\<lambda>m. - created_at m) (sort_key (\<lambda>m. - created_at m) ms))"
    by (rule sorted_sort_key)
  show "x \<in> set (sort_key (\<lambda>m. - created_at m) ms)" using assms(1) by simp
  show "length (filter (\<lambda>y. - created_at y \<le> - created_at x)
          (sort_key (\<lambda>m. - created_at m) ms)) \<le> 10"
    using assms(2) by (simp add: length_filter_sort_key)
qed

text \<open>
  Claim C2. A POST whose body parses and whose text normalises to a length of 1 to 50
  UTF-16 code units (the \<open>.length\<close> the handler compares), from a client key outside its
  30000 ms window and with the storage calls completing, is answered 200 \<open>{ok: true}\<close>;
  exactly one row, with the normalised text and \<open>created_at = now\<close>, is appended to the
  messages table (and the key's timestamp set to \<open>now\<close>); a later GET returns that row
  whenever at most ten rows of the table, itself included, have \<open>created_at \<ge> now\<close>. For
  the GET that follows the POST this holds when fewer than ten rows stored before have
  \<open>created_at \<ge> now\<close>.
\<close>

theorem valid_post_succeeds:
  assumes "DB e = Some d" "req_method req = POST" "req_json req = Some t"
    and "1 \<le> length (normalizeText t)" "length (normalizeText t) \<le> 50"
    and "case rate_limits d (clientKey P e req) of None \<Rightarrow> True
         | Some ts \<Rightarrow> 30000 \<le> date_now P - ts"
    and "storage_ok P"
  shows "fst (onRequest P e req) = json OkTrue 200 (getCorsHeaders req) \<and>
         DB (snd (onRequest P e req)) =
           Some \<lparr>messages = messages d @
                    [\<lparr>msg_id = next_id (messages d), msg_text = normalizeText t,
                      created_at = date_now P\<rparr>],
                 rate_limits = (rate_limits d)(clientKey P e req \<mapsto> date_now P)\<rparr> \<and>
         (\<forall>P' e' d' req'.
            DB e' = Some d' \<and>
            \<lparr>msg_id = next_id (messages d), msg_text = normalizeText t,
              created_at = date_now P\<rparr> \<in> set (messages d') \<and>
            length (filter (\<lambda>m. date_now P \<le> created_at m) (messages d')) \<le> 10 \<and>
            req_method req' = GET \<and> db_throws P' SelectMessages = None \<longrightarrow>
              (\<exists>rows. fst (onRequest P' e' req') = json (OkData rows) 200 (getCorsHeaders req') \<and>
                 \<lparr>msg_id = next_id (messages d), msg_text = normalizeText t,
                   created_at = date_now P\<rparr> \<in> set rows)) \<and>
         (length (filter (\<lambda>m. date_now P \<le> created_at m) (messages d)) < 10 \<longrightarrow>
            (\<forall>P' req'. req_method req' = GET \<and> db_throws P' SelectMessages = None \<longrightarrow>
               (\<exists>rows. fst (onRequest P' (snd (onRequest P e req)) req') =
                          json (OkData rows) 200 (getCorsHeaders req') \<and>
                  \<lparr>msg_id = next_id (messages d), msg_text = normalizeText t,
                    created_at = date_now P\<rparr> \<in> set rows)))"
proof -
  let ?row = "\<lparr>msg_id = next_id (messages d), msg_text = normalizeText t, created_at = date_now P\<rparr>"
  let ?d' = "\<lparr>messages = messages d @ [?row],
              rate_limits = (rate_limits d)(clientKey P e req \<mapsto> date_now P)\<rparr>"
  from assms(7) have ok: "db_throws P SelectRateLimit = None" "db_throws P UpsertRateLimit = None"
    "db_throws P InsertMessage = None" by (simp_all add: storage_ok_def)
  from assms(6) have "case rate_limits d (clientKey P e req) of None \<Rightarrow> True
         | Some ts \<Rightarrow> ts = 0 \<or> WINDOW_MS \<le> date_now P - ts"
    by (simp add: WINDOW_MS_def split: option.splits)
  from post_branch_pass [OF ok(1) this] onRequest_POST [OF assms(2,1)]
  have "onRequest P e req = post_after_check P e d req" by simp
  with post_after_check_valid [OF ok(2,3) assms(3,4,5), of e d]
  have r: "onRequest P e req = (json OkTrue 200 (getCorsHeaders req), e\<lparr>DB := Some ?d'\<rparr>)"
    by (simp add: insert_message_def upsert_rate_limit_def)
  have g: "\<exists>rows. fst (onRequest P' e' req') = json (OkData rows) 200 (getCorsHeaders req') \<and>
             ?row \<in> set rows"
    if d': "DB e' = Some d'" and i: "?row \<in> set (messages d')"
      and c: "length (filter (\<lambda>m. date_now P \<le> created_at m) (messages d')) \<le> 10"
      and m: "req_method req' = GET" and s: "db_throws P' SelectMessages = None"
    for P' e' d' req'
  proof -
    from i c have "?row \<in> set (select_latest (messages d'))"
      by (intro recent_row_in_select_latest) simp_all
    moreover from d' m s have "fst (onRequest P' e' req') =
        json (OkData (select_latest (messages d'))) 200 (getCorsHeaders req')"
      by (simp add: onRequest_def)
    ultimately show ?thesis by blast
  qed
  have h: "\<exists>rows. fst (onRequest P' (e\<lparr>DB := Some ?d'\<rparr>) req') =
                          json (OkData rows) 200 (getCorsHeaders req') \<and> ?row \<in> set rows"
    if c: "length (filter (\<lambda>m. date_now P \<le> created_at m) (messages d)) < 10"
      and m: "req_method req' = GET" and s: "db_throws P' SelectMessages = None" for P' req'
    using c by (intro g [OF _ _ _ m s, where d' = ?d']) simp_all
  show ?thesis
  proof (intro conjI allI impI)
    show "fst (onRequest P e req) = json OkTrue 200 (getCorsHeaders req)" by (simp add: r)
    show "DB (snd (onRequest P e req)) = Some ?d'" by (simp add: r)
  next
    fix P' :: platform and e' :: env and d' :: db and req' :: request
    assume "DB e' = Some d' \<and> ?row \<in> set (messages d') \<and>
            length (filter (\<lambda>m. date_now P \<le> created_at m) (messages d')) \<le> 10 \<and>
            req_method req' = GET \<and> db_throws P' SelectMessages = None"
    then show "\<exists>rows. fst (onRequest P' e' req') = json (OkData rows) 200 (getCorsHeaders req') \<and>
             ?row \<in> set rows"
      using g by blast
  next
    fix P' :: platform and req' :: request
    assume "length (filter (\<lambda>m. date_now P \<le> created_at m) (messages d)) < 10"
      and "req_method req' = GET \<and> db_throws P' SelectMessages = None"
    then show "\<exists>rows. fst (onRequest P' (snd (onRequest P e req)) req') =
                          json (OkData rows) 200 (getCorsHeaders req') \<and> ?row \<in> set rows"
      using h by (simp add: r)
  qed
qed

theorem valid_post_succeeds_witness:
  "fst (onRequest (sample_platform 1700000000000)
      (env_of \<lparr>messages = [sample_row 1 1699999995000],
               rate_limits = [sample_key \<mapsto> 1699999960000]\<rparr>) hello_request)
     = json OkTrue 200 Map.empty \<and>
   DB (snd (onRequest (sample_platform 1700000000000)
      (env_of \<lparr>messages = [sample_row 1 1699999995000],
               rate_limits = [sample_key \<mapsto> 1699999960000]\<rparr>) hello_request))
     = Some \<lparr>messages = [sample_row 1 1699999995000,
                \<lparr>msg_id = 2, msg_text = js ''hello'', created_at = 1700000000000\<rparr>],
             rate_limits = [sample_key \<mapsto> 1700000000000]\<rparr> \<and>
   (\<exists>rows. fst (onRequest (sample_platform 1700000000001)
      (snd (onRequest (sample_platform 1700000000000)
         (env_of \<lparr>messages = [sample_row 1 1699999995000],
                  rate_limits = [sample_key \<mapsto> 1699999960000]\<rparr>) hello_request))
      get_request) = json (OkData rows) 200 Map.empty \<and>
      \<lparr>msg_id = 2, msg_text = js ''hello'', created_at = 1700000000000\<rparr> \<in> set rows)"
proof -
  let ?d = "\<lparr>messages = [sample_row 1 1699999995000],
             rate_limits = [sample_key \<mapsto> 1699999960000]\<rparr>"
  let ?P = "sample_platform 1700000000000"
  have h: "1 \<le> length (normalizeText (Str (js ''hello'')))"
    "length (normalizeText (Str (js ''hello''))) \<le> 50"
    "case rate_limits ?d (clientKey ?P (env_of ?d) hello_request) of None \<Rightarrow> True
     | Some ts \<Rightarrow> 30000 \<le> date_now ?P - ts"
    by (simp_all add: normalizeText_hello length_hello hello_request_simps sample_platform_simps)
  note th = valid_post_succeeds [OF sample_request_simps(4) hello_request_simps(1,2) h
      sample_platform_simps(3)]
  have n: "next_id [sample_row 1 1699999995000] = 2" by (simp add: next_id_def sample_row_def)
  from th have 1: "fst (onRequest ?P (env_of ?d) hello_request) = json OkTrue 200 Map.empty"
    by (simp add: hello_request_simps)
  from th have 2: "DB (snd (onRequest ?P (env_of ?d) hello_request)) =
       Some \<lparr>messages = [sample_row 1 1699999995000,
                \<lparr>msg_id = 2, msg_text = js ''hello'', created_at = 1700000000000\<rparr>],
             rate_limits = [sample_key \<mapsto> 1700000000000]\<rparr>"
    by (simp add: n hello_request_simps sample_platform_simps normalizeText_hello)
  have c: "length (filter (\<lambda>m. date_now ?P \<le> created_at m) (messages ?d)) < 10"
    by (simp add: sample_platform_simps sample_row_def)
  have g: "req_method get_request = GET \<and>
           db_throws (sample_platform 1700000000001) SelectMessages = None"
    by (simp add: sample_request_simps sample_platform_simps)
  from th [THEN conjunct2, THEN conjunct2, THEN conjunct2, rule_format, OF c g]
  have "\<exists>rows. fst (onRequest (sample_platform 1700000000001)
      (snd (onRequest ?P (env_of ?d) hello_request)) get_request) = json (OkData rows) 200 Map.empty \<and>
      \<lparr>msg_id = 2, msg_text = js ''hello'', created_at = 1700000000000\<rparr> \<in> set rows"
    by (simp add: n sample_cors sample_platform_simps normalizeText_hello)
  with 1 2 show ?thesis by blast
qed

lemma select_latest_newer:
  "select_latest (newer_rows @ [\<lparr>msg_id = 11, msg_text = js ''hello'', created_at = 1700000000000\<rparr>])
     = rev newer_rows"
  by (simp add: select_latest_def newer_rows_def sample_row_def)

lemma next_id_newer: "next_id newer_rows = 11"
  by (simp add: next_id_def newer_rows_def sample_row_def)

lemma length_pairs: "length (concat (replicate n [a, b])) = 2 * n"
  by (induction n) simp_all

lemma astral_length: "length astral_text = 52"
  by (simp add: astral_text_def length_pairs)

lemma char_count_pairs:
  "char_count (concat (replicate n [0xD83D, 0xDE00])) = n"
  by (induction n) (simp_all add: is_high_surrogate_def is_low_surrogate_def)

lemma astral_char_count: "char_count astral_text = 26"
  by (simp add: astral_text_def char_count_pairs)

lemma js_trim_no_ws:
  assumes "\<forall>c\<in>set s. \<not> is_ws c"
  shows "js_trim s = s"
proof (rule js_trim_id)
  show "s = [] \<or> (\<not> is_ws (hd s) \<and> \<not> is_ws (last s))"
    using assms hd_in_set [of s] last_in_set [of s] by blast
qed

lemma js_replace_ws_no_ws: "\<forall>c\<in>set s. \<not> is_ws c \<Longrightarrow> js_replace_ws s = s"
  by (induction s) auto

lemma astral_no_ws: "\<forall>c\<in>set astral_text. \<not> is_ws c"
  by (auto simp: astral_text_def is_ws_def)

lemma normalizeText_astral: "normalizeText (Str astral_text) = astral_text"
proof -
  have "astral_text \<noteq> []" using astral_length by auto
  then show ?thesis
    by (simp add: normalizeText_def js_trim_no_ws [OF astral_no_ws]
          js_replace_ws_no_ws [OF astral_no_ws])
qed

lemma sample_post_astral:
  assumes "case rate_limits d sample_key of None \<Rightarrow> True | Some ts \<Rightarrow> ts = 0 \<or> 30000 \<le> t - ts"
  shows "onRequest (sample_platform t) (env_of d) astral_request =
           (json (Err ''Text must be 1-50 chars'') 400 Map.empty,
            env_of (upsert_rate_limit sample_key t d))"
  unfolding astral_request_def sample_passed [OF assms]
  by (simp add: post_after_check_def sample_platform_simps sample_request_simps sample_cors
        sample_clientKey normalizeText_astral astral_length Let_def)

text \<open>
  As the specification words it, the message of every accepted POST is in the following
  GET, and a text of 1 to 50 characters is accepted. With ten rows stored whose
  \<open>created_at\<close> lies after the clock value of the POST, the POST is answered 200 and the
  GET that follows returns those ten rows and not the new one. And a text of 26 characters
  that take two code units each has \<open>.length\<close> 52 and is answered 400.
\<close>

theorem valid_post_succeeds_counterexample:
  "fst (onRequest (sample_platform 1700000000000)
      (env_of \<lparr>messages = newer_rows, rate_limits = Map.empty\<rparr>) hello_request)
     = json OkTrue 200 Map.empty \<and>
   body (fst (onRequest (sample_platform 1700000000001)
      (snd (onRequest (sample_platform 1700000000000)
         (env_of \<lparr>messages = newer_rows, rate_limits = Map.empty\<rparr>) hello_request))
      get_request)) = OkData (rev newer_rows) \<and>
   js ''hello'' \<notin> msg_text ` set (rev newer_rows) \<and>
   char_count (normalizeText (Str astral_text)) = 26 \<and>
   status (fst (onRequest (sample_platform 1700000000000) (env_of fresh_db) astral_request)) = 400"
proof -
  have 1: "js ''hello'' \<notin> msg_text ` set (rev newer_rows)"
    by (simp add: newer_rows_def sample_row_def js_def)
  have 2: "status (fst (onRequest (sample_platform 1700000000000) (env_of fresh_db) astral_request)) = 400"
    by (subst sample_post_astral) (simp_all add: fresh_db_simps)
  show ?thesis using 1 2
    by (simp add: sample_post_hello sample_get insert_message_def upsert_rate_limit_def
          next_id_newer select_latest_newer normalizeText_astral astral_char_count)
qed

text \<open>
  Claim C3. A POST whose body parses and whose text normalises to length 0 or to more
  than 50 code units inserts no row into the messages table; and when the binding is
  present, the read and the upsert of the rate-limit row complete and the request is not
  throttled, it is answered 400 with the error \<open>Text must be 1-50 chars\<close>.
\<close>

theorem invalid_text_rejected:
  assumes "req_method req = POST" "req_json req = Some t"
    and "length (normalizeText t) = 0 \<or> 50 < length (normalizeText t)"
  shows "map_option messages (DB (snd (onRequest P e req))) = map_option messages (DB e) \<and>
         (DB e \<noteq> None \<and> db_throws P SelectRateLimit = None \<and>
          db_throws P UpsertRateLimit = None \<and> status (fst (onRequest P e req)) \<noteq> 429 \<longrightarrow>
            fst (onRequest P e req) = json (Err ''Text must be 1-50 chars'') 400 (getCorsHeaders req))"
proof (cases "DB e")
  case None
  then show ?thesis using assms(1) by (simp add: onRequest_def)
next
  case (Some d)
  have r: "onRequest P e req = post_branch P e d req"
    by (rule onRequest_POST [OF assms(1) Some])
  have inv: "req_json req = None \<or>
           (\<exists>t. req_json req = Some t \<and> (length (normalizeText t) = 0 \<or> 50 < length (normalizeText t)))"
    using assms(2,3) by blast
  have pac: "map_option messages (DB (snd (post_after_check P e d req))) = Some (messages d)"
    by (rule post_after_check_messages [OF Some inv])
  have 1: "map_option messages (DB (snd (post_branch P e d req))) = Some (messages d)"
    using pac Some by (simp add: post_branch_def Let_def split: option.split)
  have 2: "fst (post_branch P e d req) = json (Err ''Text must be 1-50 chars'') 400 (getCorsHeaders req)"
    if s: "db_throws P SelectRateLimit = None" and u: "db_throws P UpsertRateLimit = None"
      and n: "status (fst (post_branch P e d req)) \<noteq> 429"
  proof -
    from s n have "post_branch P e d req = post_after_check P e d req"
      by (auto simp: post_branch_def Let_def too_many_requests_def split: option.splits)
    with post_after_check_invalid [OF u assms(2,3), of e d] show ?thesis by simp
  qed
  from 1 2 show ?thesis by (simp add: r Some)
qed

text \<open>
  Without the proviso the statement fails: the rate-limit check comes before the
  validation, and an empty text sent inside the window is answered 429, not 400.
\<close>

theorem invalid_text_rejected_counterexample:
  "req_json empty_request = Some (Str []) \<and> length (normalizeText (Str [])) = 0 \<and>
   status (fst (onRequest (sample_platform 1700000001000)
      (env_of \<lparr>messages = [], rate_limits = [sample_key \<mapsto> 1700000000000]\<rparr>) empty_request)) = 429"
proof -
  let ?d = "\<lparr>messages = [], rate_limits = [sample_key \<mapsto> 1700000000000]\<rparr>"
  have "onRequest (sample_platform 1700000001000) (env_of ?d) empty_request =
          (too_many_requests Map.empty 1700000001000 1700000000000, env_of ?d)"
    unfolding empty_request_def by (rule sample_throttled) simp_all
  then show ?thesis
    by (simp add: too_many_requests_def Let_def hello_request_simps normalizeText_empty)
qed

theorem invalid_text_rejected_witness:
  "map_option messages (DB (snd (onRequest (sample_platform 1700000000000) (env_of fresh_db)
      empty_request))) = Some [] \<and>
   fst (onRequest (sample_platform 1700000000000) (env_of fresh_db) empty_request) =
     json (Err ''Text must be 1-50 chars'') 400 Map.empty"
proof -
  have s: "status (fst (onRequest (sample_platform 1700000000000) (env_of fresh_db) empty_request))
             \<noteq> 429"
    by (subst sample_post_empty) (simp_all add: fresh_db_simps)
  from invalid_text_rejected [of empty_request "Str []" "sample_platform 1700000000000"
      "env_of fresh_db"] s
  show ?thesis
    by (simp add: hello_request_simps normalizeText_empty sample_request_simps
          sample_platform_simps fresh_db_simps)
qed

section \<open>The upsert comes before the validation\<close>

lemma rejected_post_state:
  assumes "req_method req = POST" "status (fst (onRequest P e req)) = 400"
  shows "\<exists>d. DB e = Some d \<and>
           snd (onRequest P e req) =
             e\<lparr>DB := Some (d\<lparr>rate_limits := (rate_limits d)(clientKey P e req \<mapsto> date_now P)\<rparr>)\<rparr>"
proof -
  from assms obtain d where d: "DB e = Some d"
    by (cases "DB e") (auto simp: onRequest_def)
  have r: "onRequest P e req = post_branch P e d req"
    by (rule onRequest_POST [OF assms(1) d])
  from assms(2) have pb: "post_branch P e d req = post_after_check P e d req"
    by (auto simp: r post_branch_def Let_def too_many_requests_def server_error_post_def
          split: option.splits if_splits)
  from assms(2) post_after_check_400 [of P e d req]
  have "snd (onRequest P e req) =
      e\<lparr>DB := Some (d\<lparr>rate_limits := (rate_limits d)(clientKey P e req \<mapsto> date_now P)\<rparr>)\<rparr>"
    by (simp add: r pb upsert_rate_limit_def)
  with d show ?thesis by simp
qed

text \<open>
  Claim C5. A POST that passes the rate-limit check (binding present, read and upsert
  completing, not answered 429) leaves \<open>(clientKey, now)\<close> in the rate-limit table
  whatever its body is. In particular a POST answered 400 has changed the store in this
  and in nothing else: no message was created, and a following POST of the same client
  key less than 30000 ms later is throttled and changes nothing (its read of the
  rate-limit row completing, and \<open>now\<close> of the rejected request being a clock value other
  than 0, which the check \<open>rlRow?.last_ts && \<dots>\<close> takes for a missing entry).
\<close>

theorem rejected_post_resets_window:
  "(\<forall>d. req_method req = POST \<and> DB e = Some d \<and> db_throws P SelectRateLimit = None \<and>
        db_throws P UpsertRateLimit = None \<and> status (fst (onRequest P e req)) \<noteq> 429 \<longrightarrow>
        map_option rate_limits (DB (snd (onRequest P e req))) =
          Some ((rate_limits d)(clientKey P e req \<mapsto> date_now P))) \<and>
   (req_method req = POST \<and> status (fst (onRequest P e req)) = 400 \<longrightarrow>
      (\<exists>d. DB e = Some d \<and>
         snd (onRequest P e req) =
           e\<lparr>DB := Some (d\<lparr>rate_limits := (rate_limits d)(clientKey P e req \<mapsto> date_now P)\<rparr>)\<rparr> \<and>
         (\<forall>P2 req2. req_method req2 = POST \<and> db_throws P2 SelectRateLimit = None \<and>
             clientKey P2 (snd (onRequest P e req)) req2 = clientKey P e req \<and>
             date_now P \<noteq> 0 \<and> date_now P2 - date_now P < 30000 \<longrightarrow>
             status (fst (onRequest P2 (snd (onRequest P e req)) req2)) = 429 \<and>
             snd (onRequest P2 (snd (onRequest P e req)) req2) = snd (onRequest P e req))))"
proof (intro conjI allI impI)
  fix d
  assume a: "req_method req = POST \<and> DB e = Some d \<and> db_throws P SelectRateLimit = None \<and>
        db_throws P UpsertRateLimit = None \<and> status (fst (onRequest P e req)) \<noteq> 429"
  then have r: "onRequest P e req = post_branch P e d req"
    by (intro onRequest_POST) simp_all
  from a have "post_branch P e d req = post_after_check P e d req"
    by (auto simp: r post_branch_def Let_def too_many_requests_def split: option.splits)
  with a post_after_check_upsert [of P e d req]
  show "map_option rate_limits (DB (snd (onRequest P e req))) =
          Some ((rate_limits d)(clientKey P e req \<mapsto> date_now P))"
    by (simp add: r)
next
  assume a: "req_method req = POST \<and> status (fst (onRequest P e req)) = 400"
  then obtain d where d: "DB e = Some d" and e': "snd (onRequest P e req) =
      e\<lparr>DB := Some (d\<lparr>rate_limits := (rate_limits d)(clientKey P e req \<mapsto> date_now P)\<rparr>)\<rparr>"
    using rejected_post_state [of req P e] by blast
  let ?d' = "d\<lparr>rate_limits := (rate_limits d)(clientKey P e req \<mapsto> date_now P)\<rparr>"
  have "status (fst (onRequest P2 (e\<lparr>DB := Some ?d'\<rparr>) req2)) = 429 \<and>
        snd (onRequest P2 (e\<lparr>DB := Some ?d'\<rparr>) req2) = e\<lparr>DB := Some ?d'\<rparr>"
    if "req_method req2 = POST \<and> db_throws P2 SelectRateLimit = None \<and>
      clientKey P2 (e\<lparr>DB := Some ?d'\<rparr>) req2 = clientKey P e req \<and>
      date_now P \<noteq> 0 \<and> date_now P2 - date_now P < 30000" for P2 req2
  proof -
    have "throttled P2 (e\<lparr>DB := Some ?d'\<rparr>) req2 (30000 - (date_now P2 - date_now P))"
      by (rule decision_throttled [where d = ?d']) (simp_all add: that)
    then show ?thesis by (simp add: throttled_def)
  qed
  with d e' show "\<exists>d. DB e = Some d \<and>
         snd (onRequest P e req) =
           e\<lparr>DB := Some (d\<lparr>rate_limits := (rate_limits d)(clientKey P e req \<mapsto> date_now P)\<rparr>)\<rparr> \<and>
         (\<forall>P2 req2. req_method req2 = POST \<and> db_throws P2 SelectRateLimit = None \<and>
             clientKey P2 (snd (onRequest P e req)) req2 = clientKey P e req \<and>
             date_now P \<noteq> 0 \<and> date_now P2 - date_now P < 30000 \<longrightarrow>
             status (fst (onRequest P2 (snd (onRequest P e req)) req2)) = 429 \<and>
             snd (onRequest P2 (snd (onRequest P e req)) req2) = snd (onRequest P e req))"
    by simp
qed

theorem rejected_post_resets_window_witness:
  "status (fst (onRequest (sample_platform 1700000000000) (env_of fresh_db) empty_request)) = 400 \<and>
   snd (onRequest (sample_platform 1700000000000) (env_of fresh_db) empty_request) =
     env_of \<lparr>messages = [], rate_limits = [sample_key \<mapsto> 1700000000000]\<rparr> \<and>
   status (fst (onRequest (sample_platform 1700000001000)
      (snd (onRequest (sample_platform 1700000000000) (env_of fresh_db) empty_request))
      hello_request)) = 429"
proof -
  let ?P = "sample_platform 1700000000000"
  have 1: "onRequest ?P (env_of fresh_db) empty_request =
          (json (Err ''Text must be 1-50 chars'') 400 Map.empty,
           env_of (upsert_rate_limit sample_key 1700000000000 fresh_db))"
    by (rule sample_post_empty) (simp add: fresh_db_simps)
  then have s: "req_method empty_request = POST \<and>
      status (fst (onRequest ?P (env_of fresh_db) empty_request)) = 400"
    by (simp add: hello_request_simps)
  from rejected_post_resets_window [of empty_request "env_of fresh_db" ?P,
      THEN conjunct2, rule_format, OF s]
  obtain d where d: "DB (env_of fresh_db) = Some d"
    and e': "snd (onRequest ?P (env_of fresh_db) empty_request) =
      (env_of fresh_db)\<lparr>DB := Some (d\<lparr>rate_limits :=
         (rate_limits d)(clientKey ?P (env_of fresh_db) empty_request \<mapsto> date_now ?P)\<rparr>)\<rparr>"
    and nxt: "\<And>P2 req2. req_method req2 = POST \<and> db_throws P2 SelectRateLimit = None \<and>
               clientKey P2 (snd (onRequest ?P (env_of fresh_db) empty_request)) req2 =
                 clientKey ?P (env_of fresh_db) empty_request \<and>
               date_now ?P \<noteq> 0 \<and> date_now P2 - date_now ?P < 30000 \<Longrightarrow>
               status (fst (onRequest P2 (snd (onRequest ?P (env_of fresh_db) empty_request)) req2)) = 429"
    by blast
  from d have "d = fresh_db" by (simp add: sample_request_simps)
  with e' have 2: "snd (onRequest ?P (env_of fresh_db) empty_request) =
     env_of \<lparr>messages = [], rate_limits = [sample_key \<mapsto> 1700000000000]\<rparr>"
    by (simp add: hello_request_simps sample_platform_simps sample_request_simps fresh_db_def)
  have "status (fst (onRequest (sample_platform 1700000001000)
      (snd (onRequest ?P (env_of fresh_db) empty_request)) hello_request)) = 429"
    by (rule nxt) (simp add: 2 hello_request_simps sample_platform_simps)
  with s 2 show ?thesis by simp
qed

section \<open>The two handlers\<close>

lemma onRequest_simple_rate_limits:
  "map_option rate_limits (DB (snd (onRequest_simple P e req))) = map_option rate_limits (DB e)"
  by (auto simp: onRequest_simple_def Let_def insert_message_def split: option.splits jsval.splits)

lemma onRequest_simple_status:
  "fst (onRequest_simple P e req) = Some r \<Longrightarrow> status r \<in> {200, 400, 405}"
  by (auto simp: onRequest_simple_def Let_def simple_response_def
        split: option.splits jsval.splits if_splits)

lemma simple_never_reads:
  "fst (onRequest_simple P (e\<lparr>DB := map_option (\<lambda>d. d\<lparr>rate_limits := rl\<rparr>) (DB e)\<rparr>) req) =
     fst (onRequest_simple P e req) \<and>
   map_option messages
     (DB (snd (onRequest_simple P (e\<lparr>DB := map_option (\<lambda>d. d\<lparr>rate_limits := rl\<rparr>) (DB e)\<rparr>) req))) =
     map_option messages (DB (snd (onRequest_simple P e req)))"
  by (auto simp: onRequest_simple_def Let_def insert_message_def split: option.splits jsval.splits)

lemma simple_never_hashes:
  "onRequest_simple (P\<lparr>digest := g\<rparr>) e (req\<lparr>req_headers := h\<rparr>) = onRequest_simple P e req"
  by (auto simp: onRequest_simple_def Let_def split: option.splits jsval.splits)

lemma simple_ignores_salt:
  "fst (onRequest_simple P (e\<lparr>RATE_LIMIT_SALT := s\<rparr>) req) = fst (onRequest_simple P e req) \<and>
   DB (snd (onRequest_simple P (e\<lparr>RATE_LIMIT_SALT := s\<rparr>) req)) = DB (snd (onRequest_simple P e req))"
  by (auto simp: onRequest_simple_def Let_def split: option.splits jsval.splits)

text \<open>
  Claim C6. Of the two handlers only one limits the rate. The handler of
  \<open>functions/api/messages.js\<close> never answers 429 and never writes the rate-limit table;
  it never reads it either: its answer and the messages it leaves are the same whatever
  the table holds, and its result does not depend on the digest, on the request headers
  or on \<open>RATE_LIMIT_SALT\<close> (\<open>sha256Hex\<close> and \<open>getClientIp\<close> are declared and never
  called). The handler with the rate limiter answers 429 inside the window of a client
  key and then leaves the whole store untouched. Neither updates the stored timestamp on
  a throttled attempt.
\<close>

theorem only_one_variant_limits:
  "(\<forall>r. fst (onRequest_simple P e req) = Some r \<longrightarrow> status r \<noteq> 429) \<and>
   map_option rate_limits (DB (snd (onRequest_simple P e req))) = map_option rate_limits (DB e) \<and>
   fst (onRequest_simple P (e\<lparr>DB := map_option (\<lambda>d. d\<lparr>rate_limits := rl\<rparr>) (DB e)\<rparr>) req) =
     fst (onRequest_simple P e req) \<and>
   map_option messages
     (DB (snd (onRequest_simple P (e\<lparr>DB := map_option (\<lambda>d. d\<lparr>rate_limits := rl\<rparr>) (DB e)\<rparr>) req))) =
     map_option messages (DB (snd (onRequest_simple P e req))) \<and>
   onRequest_simple (P\<lparr>digest := g\<rparr>) e (req\<lparr>req_headers := h\<rparr>) = onRequest_simple P e req \<and>
   fst (onRequest_simple P (e\<lparr>RATE_LIMIT_SALT := s\<rparr>) req) = fst (onRequest_simple P e req) \<and>
   DB (snd (onRequest_simple P (e\<lparr>RATE_LIMIT_SALT := s\<rparr>) req)) =
     DB (snd (onRequest_simple P e req)) \<and>
   (status (fst (onRequest P e req)) = 429 \<longrightarrow> snd (onRequest P e req) = e) \<and>
   (\<forall>d ts. DB e = Some d \<and> req_method req = POST \<and> db_throws P SelectRateLimit = None \<and>
      rate_limits d (clientKey P e req) = Some ts \<and> ts \<noteq> 0 \<and> date_now P - ts < 30000 \<longrightarrow>
      status (fst (onRequest P e req)) = 429)"
proof -
  have a: "status r \<noteq> 429" if "fst (onRequest_simple P e req) = Some r" for r
    using onRequest_simple_status [OF that] by auto
  have b: "snd (onRequest P e req) = e" if "status (fst (onRequest P e req)) = 429"
    using onRequest_429 [OF that] by auto
  have c: "status (fst (onRequest P e req)) = 429"
    if "DB e = Some d \<and> req_method req = POST \<and> db_throws P SelectRateLimit = None \<and>
      rate_limits d (clientKey P e req) = Some ts \<and> ts \<noteq> 0 \<and> date_now P - ts < 30000" for d ts
  proof -
    have "throttled P e req (30000 - (date_now P - ts))"
      by (rule decision_throttled [where d = d]) (simp_all add: that)
    then show ?thesis by (simp add: throttled_def)
  qed
  show ?thesis
    using a b c onRequest_simple_rate_limits [where P = P and e = e and req = req]
      simple_never_reads [where P = P and e = e and rl = rl and req = req]
      simple_never_hashes [where P = P and g = g and e = e and req = req and h = h]
      simple_ignores_salt [where P = P and e = e and s = s and req = req]
    by blast
qed

text \<open>
  As the specification words it, both handlers limit the rate and one of them moves the
  timestamp when it throttles. Inside the window of a client key the handler with the
  limiter answers 429 and changes nothing, while the other handler accepts the same
  request, inserts the message and leaves the rate-limit table alone.
\<close>

theorem only_one_variant_limits_counterexample:
  "status (fst (onRequest (sample_platform 1700000001000)
      (env_of \<lparr>messages = [], rate_limits = [sample_key \<mapsto> 1700000000000]\<rparr>) hello_request)) = 429 \<and>
   onRequest_simple (sample_platform 1700000001000)
      (env_of \<lparr>messages = [], rate_limits = [sample_key \<mapsto> 1700000000000]\<rparr>) hello_request =
     (Some (simple_response OkTrue 200),
      env_of \<lparr>messages = [\<lparr>msg_id = 1, msg_text = js ''hello'', created_at = 1700000001000\<rparr>],
              rate_limits = [sample_key \<mapsto> 1700000000000]\<rparr>) \<and>
   snd (onRequest (sample_platform 1700000001000)
      (env_of \<lparr>messages = [], rate_limits = [sample_key \<mapsto> 1700000000000]\<rparr>) hello_request) =
     env_of \<lparr>messages = [], rate_limits = [sample_key \<mapsto> 1700000000000]\<rparr>"
proof -
  let ?d = "\<lparr>messages = [], rate_limits = [sample_key \<mapsto> 1700000000000]\<rparr>"
  have "onRequest (sample_platform 1700000001000) (env_of ?d) hello_request =
          (too_many_requests Map.empty 1700000001000 1700000000000, env_of ?d)"
    unfolding hello_request_def by (rule sample_throttled) simp_all
  then show ?thesis
    by (simp add: too_many_requests_def Let_def sample_simple_hello insert_message_def next_id_def)
qed

theorem only_one_variant_limits_witness:
  "fst (onRequest_simple (sample_platform 1700000001000)
      (env_of \<lparr>messages = [], rate_limits = [sample_key \<mapsto> 1700000000000]\<rparr>) hello_request) =
     Some (simple_response OkTrue 200) \<and>
   status (simple_response OkTrue 200) \<noteq> 429 \<and>
   status (fst (onRequest (sample_platform 1700000001000)
      (env_of \<lparr>messages = [], rate_limits = [sample_key \<mapsto> 1700000000000]\<rparr>) hello_request)) = 429 \<and>
   snd (onRequest (sample_platform 1700000001000)
      (env_of \<lparr>messages = [], rate_limits = [sample_key \<mapsto> 1700000000000]\<rparr>) hello_request) =
     env_of \<lparr>messages = [], rate_limits = [sample_key \<mapsto> 1700000000000]\<rparr>"
proof -
  let ?d = "\<lparr>messages = [], rate_limits = [sample_key \<mapsto> 1700000000000]\<rparr>"
  let ?P = "sample_platform 1700000001000"
  have 1: "fst (onRequest_simple ?P (env_of ?d) hello_request) = Some (simple_response OkTrue 200)"
    by (simp add: sample_simple_hello)
  have "onRequest ?P (env_of ?d) hello_request =
          (too_many_requests Map.empty 1700000001000 1700000000000, env_of ?d)"
    unfolding hello_request_def by (rule sample_throttled) simp_all
  then have 2: "status (fst (onRequest ?P (env_of ?d) hello_request)) = 429"
    by (simp add: too_many_requests_def Let_def)
  from only_one_variant_limits [where P = ?P and e = "env_of ?d" and req = hello_request] 1 2
  show ?thesis by simp
qed

end
